theory Spec2Isabelle
  imports Main "HOL-Library.Sublist"
begin

section \<open>Python values, strings and paths\<close>

text \<open>
  The program is \<^verbatim>\<open>cfp-sphinx.py\<close>: it reads four tables of a MariaDB database
  (\<^verbatim>\<open>cfp_gubernia\<close>, \<^verbatim>\<open>cfp_uezd\<close>, \<^verbatim>\<open>cfp_locality\<close>, \<^verbatim>\<open>cfp_church\<close>) and writes a
  tree of directories and \<^verbatim>\<open>index.rst\<close> files under \<^verbatim>\<open><cwd>/nsa/cfp\<close>.

  Identifiers are Python ints (primary keys), names are Python strings. \<^verbatim>\<open>str(i)\<close>,
  \<^verbatim>\<open>'%s' % i\<close> and \<^verbatim>\<open>f'{i}'\<close> all give the decimal text of an int.

  The methods \<^verbatim>\<open>cd\<close>, \<^verbatim>\<open>format_header\<close> and \<^verbatim>\<open>__gen\<close> are never called and have no
  counterpart here. A statement sent on an open connection is taken to be answered:
  an error of \<^verbatim>\<open>cursor.execute\<close> is not a branch of the model.
\<close>

fun digits :: "nat \<Rightarrow> string" where
  "digits n = (if n < 10 then [''0123456789'' ! n]
               else digits (n div 10) @ [''0123456789'' ! (n mod 10)])"

declare digits.simps [simp del]

definition str_int :: "int \<Rightarrow> string" where
  "str_int i = (if i < 0 then CHR ''-'' # digits (nat (- i)) else digits (nat i))"

text \<open>
  The value given for a replacement field of \<^verbatim>\<open>str.format\<close>: \<^verbatim>\<open>None\<close> is written
  as the four letters \<^verbatim>\<open>None\<close>, a string as itself.
\<close>

datatype pyval = PyNone | PyStr string

fun py_str :: "pyval \<Rightarrow> string" where
  "py_str PyNone = ''None''"
| "py_str (PyStr s) = s"

text \<open>
  A path is a list of segments, absolute or relative. \<^verbatim>\<open>os.path.join\<close> drops everything
  before an absolute component. No segment the program builds holds a separator (the
  literals and the decimal text of an int), so a list of segments loses nothing.
\<close>

datatype ppath = Abs "string list" | Rel "string list"

fun pj :: "ppath \<Rightarrow> ppath \<Rightarrow> ppath" where
  "pj a (Abs q) = Abs q"
| "pj (Abs p) (Rel q) = Abs (p @ q)"
| "pj (Rel p) (Rel q) = Rel (p @ q)"

fun show_segs :: "string list \<Rightarrow> string" where
  "show_segs [] = []"
| "show_segs (s # ss) = CHR ''/'' # s @ show_segs ss"

definition path_text :: "string list \<Rightarrow> string" where
  "path_text p = (if p = [] then ''/'' else show_segs p)"

section \<open>The file system\<close>

text \<open>
  The file system maps an absolute path to a directory or to a file with its contents;
  the root \<^verbatim>\<open>/\<close> (the empty list) is always a directory.
\<close>

datatype node = Dir | File string

type_synonym fsmap = "string list \<rightharpoonup> node"

definition is_dir :: "fsmap \<Rightarrow> string list \<Rightarrow> bool" where
  "is_dir N p = (p = [] \<or> N p = Some Dir)"

fun file_among :: "fsmap \<Rightarrow> string list list \<Rightarrow> bool" where
  "file_among N [] = False"
| "file_among N (q # qs) = ((case N q of Some (File c) \<Rightarrow> True | _ \<Rightarrow> False) \<or> file_among N qs)"

text \<open>
  An \<^verbatim>\<open>OSError\<close> carries an error number and, when it comes from a call that is given a
  path (\<^verbatim>\<open>mkdir\<close>, \<^verbatim>\<open>open\<close>), the file name. Four error numbers follow from what the tree
  holds. The others (\<open>cause\<close>) come from outside: permissions, a full or read-only or
  broken medium, a quota. Numbers and messages are those of Linux; the class is the
  subclass of \<^verbatim>\<open>OSError\<close> that Python picks for the number.
\<close>

datatype cause = EPERM | EIO | EACCES | ENOSPC | EROFS | EDQUOT

datatype errno = ENOENT | EEXIST | ENOTDIR | EISDIR | Fault cause

datatype oserror = OSError errno "string option"

fun errno_number :: "errno \<Rightarrow> int" where
  "errno_number ENOENT = 2"
| "errno_number EEXIST = 17"
| "errno_number ENOTDIR = 20"
| "errno_number EISDIR = 21"
| "errno_number (Fault EPERM) = 1"
| "errno_number (Fault EIO) = 5"
| "errno_number (Fault EACCES) = 13"
| "errno_number (Fault ENOSPC) = 28"
| "errno_number (Fault EROFS) = 30"
| "errno_number (Fault EDQUOT) = 122"

fun errno_message :: "errno \<Rightarrow> string" where
  "errno_message ENOENT = ''No such file or directory''"
| "errno_message EEXIST = ''File exists''"
| "errno_message ENOTDIR = ''Not a directory''"
| "errno_message EISDIR = ''Is a directory''"
| "errno_message (Fault EPERM) = ''Operation not permitted''"
| "errno_message (Fault EIO) = ''Input/output error''"
| "errno_message (Fault EACCES) = ''Permission denied''"
| "errno_message (Fault ENOSPC) = ''No space left on device''"
| "errno_message (Fault EROFS) = ''Read-only file system''"
| "errno_message (Fault EDQUOT) = ''Disk quota exceeded''"

fun errno_class :: "errno \<Rightarrow> string" where
  "errno_class ENOENT = ''FileNotFoundError''"
| "errno_class EEXIST = ''FileExistsError''"
| "errno_class ENOTDIR = ''NotADirectoryError''"
| "errno_class EISDIR = ''IsADirectoryError''"
| "errno_class (Fault EPERM) = ''PermissionError''"
| "errno_class (Fault EACCES) = ''PermissionError''"
| "errno_class (Fault EIO) = ''OSError''"
| "errno_class (Fault ENOSPC) = ''OSError''"
| "errno_class (Fault EROFS) = ''OSError''"
| "errno_class (Fault EDQUOT) = ''OSError''"

fun class_name :: "oserror \<Rightarrow> string" where
  "class_name (OSError n f) = errno_class n"

text \<open>
  \<^verbatim>\<open>repr\<close> of a string, which is how an \<^verbatim>\<open>OSError\<close> shows its file name: in single
  quotes, or in double quotes when the string holds a single quote and no double
  quote; the quote in use and the backslash are escaped, tab, newline and return
  are written \<^verbatim>\<open>\t\<close>, \<^verbatim>\<open>\n\<close>, \<^verbatim>\<open>\r\<close>, and a character that is not printable is written
  \<^verbatim>\<open>\xhh\<close>. A character here is a code point below 256; of these the controls
  (0 to 31, 127 to 159), the no-break space (160) and the soft hyphen (173) are not
  printable.
\<close>

definition hex_digit :: "nat \<Rightarrow> char" where
  "hex_digit n = ''0123456789abcdef'' ! n"

definition repr_char :: "char \<Rightarrow> char \<Rightarrow> string" where
  "repr_char quote c =
     (if c = quote \<or> c = CHR 0x5C then [CHR 0x5C, c]
      else if c = CHR 0x09 then [CHR 0x5C, CHR ''t'']
      else if c = CHR 0x0A then [CHR 0x5C, CHR ''n'']
      else if c = CHR 0x0D then [CHR 0x5C, CHR ''r'']
      else if (of_char c :: nat) < 32 \<or> (127 \<le> (of_char c :: nat) \<and> (of_char c :: nat) \<le> 160)
              \<or> (of_char c :: nat) = 173
        then [CHR 0x5C, CHR ''x'', hex_digit ((of_char c :: nat) div 16), hex_digit ((of_char c :: nat) mod 16)]
      else [c])"

definition py_repr :: "string \<Rightarrow> string" where
  "py_repr s =
     (let quote = (if CHR 0x27 \<in> set s \<and> CHR 0x22 \<notin> set s then CHR 0x22 else CHR 0x27)
      in quote # concat (map (repr_char quote) s) @ [quote])"

text \<open>\<^verbatim>\<open>str(e)\<close> of an \<^verbatim>\<open>OSError\<close>, which is what \<^verbatim>\<open>f"{e}"\<close> and the traceback show.\<close>

fun str_oserror :: "oserror \<Rightarrow> string" where
  "str_oserror (OSError n None) = ''[Errno '' @ str_int (errno_number n) @ ''] '' @ errno_message n"
| "str_oserror (OSError n (Some f)) =
     ''[Errno '' @ str_int (errno_number n) @ ''] '' @ errno_message n @ '': '' @ py_repr f"

text \<open>
  The faults of a run: \<open>deny\<close> says at which paths the operating system fails, and
  how. \<open>Refused c\<close>: \<^verbatim>\<open>mkdir\<close> and \<^verbatim>\<open>open\<close> of the path fail with \<open>c\<close>, and the path stays as
  it is. \<open>Cut c k\<close>: the path can be opened, which creates the file or empties it, \<open>k\<close>
  characters reach the file, and then \<^verbatim>\<open>write\<close> or \<^verbatim>\<open>close\<close> fails with \<open>c\<close>; this error
  names no file, and \<^verbatim>\<open>mkdir\<close> of such a path goes through.
\<close>

datatype fault = Refused cause | Cut cause nat

type_synonym faults = "string list \<rightharpoonup> fault"

text \<open>
  \<^verbatim>\<open>os.makedirs(p, exist_ok=True)\<close> goes up from \<open>p\<close> to the nearest ancestor that
  exists and calls \<^verbatim>\<open>mkdir\<close> on each path from there down to \<open>p\<close>; an error of \<^verbatim>\<open>mkdir\<close>
  is passed over when the path is a directory. Seen from the root down: a prefix of \<open>p\<close>
  that is a directory is passed, a missing one is made unless the system refuses, and
  a regular file in the way ends the call, with \<^verbatim>\<open>FileExistsError\<close> when the file is \<open>p\<close>
  itself, and otherwise with \<^verbatim>\<open>NotADirectoryError\<close> from the \<^verbatim>\<open>mkdir\<close> of the path right
  below the file. Directories made before the failing path stay.
\<close>

fun mkdir_all :: "faults \<Rightarrow> fsmap \<Rightarrow> string list list \<Rightarrow> oserror option \<times> fsmap" where
  "mkdir_all D N [] = (None, N)"
| "mkdir_all D N (q # qs) =
     (if is_dir N q then mkdir_all D N qs
      else if N q \<noteq> None then
        (Some (case qs of
                 [] \<Rightarrow> OSError EEXIST (Some (path_text q))
               | q' # qs' \<Rightarrow> OSError ENOTDIR (Some (path_text q'))), N)
      else (case D q of
              Some (Refused c) \<Rightarrow> (Some (OSError (Fault c) (Some (path_text q))), N)
            | _ \<Rightarrow> mkdir_all D (N(q \<mapsto> Dir)) qs))"

definition os_makedirs :: "faults \<Rightarrow> fsmap \<Rightarrow> string list \<Rightarrow> oserror option \<times> fsmap" where
  "os_makedirs D N p = mkdir_all D N (prefixes p)"

text \<open>
  \<^verbatim>\<open>f = open(p, 'w+'); f.write(rst); f.close()\<close>. \<^verbatim>\<open>open\<close> fails, and leaves the tree as
  it is, when an ancestor of \<open>p\<close> is a regular file (\<^verbatim>\<open>NotADirectoryError\<close>) or is missing
  (\<^verbatim>\<open>FileNotFoundError\<close>), when \<open>p\<close> is a directory, and when the system refuses. Once
  \<^verbatim>\<open>open\<close> has succeeded the file is there and empty; it gets the new contents, or, when
  writing is cut short, the part of them that got through.
\<close>

definition os_write_file :: "faults \<Rightarrow> fsmap \<Rightarrow> string list \<Rightarrow> string \<Rightarrow> oserror option \<times> fsmap" where
  "os_write_file D N p rst =
     (if \<not> is_dir N (butlast p) then
        (Some (OSError (if file_among N (prefixes (butlast p)) then ENOTDIR else ENOENT)
                 (Some (path_text p))), N)
      else if is_dir N p then (Some (OSError EISDIR (Some (path_text p))), N)
      else (case D p of
              Some (Refused c) \<Rightarrow> (Some (OSError (Fault c) (Some (path_text p))), N)
            | Some (Cut c k) \<Rightarrow> (Some (OSError (Fault c) None), N(p \<mapsto> File (take k rst)))
            | None \<Rightarrow> (None, N(p \<mapsto> File rst))))"

section \<open>The process and the data store\<close>

text \<open>
  A table row is \<open>(id, parent id, name)\<close>; \<^verbatim>\<open>cfp_gubernia\<close> has no parent column. The
  cursor's \<^verbatim>\<open>execute\<close> followed by \<^verbatim>\<open>fetchall\<close> is \<open>query\<close>: it records the statement
  sent to the data store and returns the rows, in the order the store holds them.
\<close>

record db =
  cfp_gubernia :: "(int \<times> string) list"
  cfp_uezd :: "(int \<times> int \<times> string) list"
  cfp_locality :: "(int \<times> int \<times> string) list"
  cfp_church :: "(int \<times> int \<times> string) list"

text \<open>
  What the process writes on its standard error stream is the interpreter's traceback
  of an exception nobody caught: lines that say where the exception arose, and a last
  line that names the exception. The lines before the last depend on the interpreter
  and on where the script lies; a traceback is kept as the exception it reports, and
  \<open>last_line\<close> is its last line.
\<close>

datatype err_output = Traceback oserror

fun last_line :: "err_output \<Rightarrow> string" where
  "last_line (Traceback e) = class_name e @ '': '' @ str_oserror e @ ''\<newline>''"

record world =
  nodes :: fsmap
  deny :: faults
  cwd :: "string list"
  stdout :: "string list"
  stderr :: "err_output list"
  issued :: "(string \<times> int list) list"
  current_gub :: string

definition sql_gubernia :: string where
  "sql_gubernia = ''SELECT id, name FROM cfp_gubernia''"

definition sql_uezd :: string where
  "sql_uezd = ''SELECT id, name FROM cfp_uezd WHERE gub_id=?''"

definition sql_locality :: string where
  "sql_locality = ''SELECT id, name FROM cfp_locality WHERE uezd_id=?''"

definition sql_church :: string where
  "sql_church = ''SELECT id, name FROM cfp_church WHERE locality_id=?''"

definition children_of :: "(int \<times> int \<times> string) list \<Rightarrow> int list \<Rightarrow> (int \<times> string) list" where
  "children_of rows params = map (\<lambda>(i, p, n). (i, n)) (filter (\<lambda>(i, p, n). [p] = params) rows)"

definition run_select :: "db \<Rightarrow> string \<Rightarrow> int list \<Rightarrow> (int \<times> string) list" where
  "run_select d sql params =
     (if sql = sql_gubernia then cfp_gubernia d
      else if sql = sql_uezd then children_of (cfp_uezd d) params
      else if sql = sql_locality then children_of (cfp_locality d) params
      else if sql = sql_church then children_of (cfp_church d) params
      else [])"

definition query :: "db \<Rightarrow> string \<Rightarrow> int list \<Rightarrow> world \<Rightarrow> (int \<times> string) list \<times> world" where
  "query d sql params w = (run_select d sql params, w\<lparr>issued := issued w @ [(sql, params)]\<rparr>)"

text \<open>
  A call either returns a value, or ends the run: by \<^verbatim>\<open>sys.exit(n)\<close>, or by an exception
  nobody catches. Both carry the world as it is at that moment.
\<close>

datatype stop = SysExit int | Uncaught oserror

datatype 'a result = Ret 'a world | Halt stop world

fun final :: "'a result \<Rightarrow> world" where
  "final (Ret v w) = w"
| "final (Halt s w) = w"

fun returned :: "'a result \<Rightarrow> bool" where
  "returned (Ret v w) = True"
| "returned (Halt s w) = False"

fun and_then :: "'a result \<Rightarrow> ('a \<Rightarrow> world \<Rightarrow> 'b result) \<Rightarrow> 'b result" where
  "and_then (Ret v w) f = f v w"
| "and_then (Halt s w) f = Halt s w"

text \<open>\<^verbatim>\<open>for x in xs: acc = body(x, acc)\<close>, ended by the first iteration that ends the run.\<close>

fun foreach :: "'a list \<Rightarrow> ('a \<Rightarrow> 'b \<Rightarrow> world \<Rightarrow> 'b result) \<Rightarrow> 'b \<Rightarrow> world \<Rightarrow> 'b result" where
  "foreach [] body acc w = Ret acc w"
| "foreach (x # xs) body acc w = and_then (body x acc w) (foreach xs body)"

definition py_print :: "string \<Rightarrow> string \<Rightarrow> world \<Rightarrow> world" where
  "py_print s e w = w\<lparr>stdout := stdout w @ [s @ e]\<rparr>"

section \<open>The class CfpSphinx\<close>

record cfp_sphinx =
  cur :: db
  root_dir :: ppath

definition resolve :: "world \<Rightarrow> ppath \<Rightarrow> string list" where
  "resolve w p = (case p of Abs q \<Rightarrow> q | Rel q \<Rightarrow> cwd w @ q)"

text \<open>
  \<^verbatim>\<open>__init__\<close>: \<open>conn\<close> is what \<^verbatim>\<open>mariadb.connect\<close> does with the given credentials: the
  message of a \<^verbatim>\<open>mariadb.Error\<close>, or a connection to the tables.
\<close>

definition init :: "string + db \<Rightarrow> world \<Rightarrow> cfp_sphinx result" where
  "init conn w =
     (case conn of
        Inl e \<Rightarrow> Halt (SysExit 1) (py_print (''Error connecting to MariaDB Platform: '' @ e) ''\<newline>'' w)
      | Inr d \<Rightarrow>
          Ret \<lparr>cur = d, root_dir = pj (pj (Abs (cwd w)) (Rel [''nsa''])) (Rel [''cfp''])\<rparr>
              (w\<lparr>current_gub := []\<rparr>))"

definition tree_templ :: "pyval \<Rightarrow> string \<Rightarrow> string" where
  "tree_templ title members =
     ''\<newline>.. Tree RST template\<newline>.. Autogenerated by cfp-sphinx.py\<newline>\<newline>''
     @ py_str title
     @ ''\<newline>\<newline>.. toctree::\<newline>   :maxdepth: 2\<newline>\<newline>''
     @ members @ ''\<newline>''"

definition make_dirs :: "cfp_sphinx \<Rightarrow> ppath \<Rightarrow> world \<Rightarrow> unit result" where
  "make_dirs self path w =
     (case os_makedirs (deny w) (nodes w) (resolve w (pj (root_dir self) path)) of
        (None, N') \<Rightarrow> Ret () (w\<lparr>nodes := N'\<rparr>)
      | (Some e, N') \<Rightarrow>
          Halt (SysExit 1)
            (py_print (''Could not create directory: '' @ str_oserror e) ''\<newline>'' (w\<lparr>nodes := N'\<rparr>)))"

definition file_write :: "cfp_sphinx \<Rightarrow> ppath \<Rightarrow> string \<Rightarrow> world \<Rightarrow> unit result" where
  "file_write self fn rst w =
     (case os_write_file (deny w) (nodes w) (resolve w (pj (root_dir self) fn)) rst of
        (None, N') \<Rightarrow> Ret () (w\<lparr>nodes := N'\<rparr>)
      | (Some e, N') \<Rightarrow> Halt (Uncaught e) (w\<lparr>nodes := N'\<rparr>))"

definition format3 :: "string \<Rightarrow> string" where
  "format3 name = ''   '' @ name"

definition gen_tree_index :: "cfp_sphinx \<Rightarrow> ppath \<Rightarrow> string \<Rightarrow> world \<Rightarrow> unit result" where
  "gen_tree_index self path content w = file_write self (pj path (Rel [''index.rst''])) content w"

definition gen_churches :: "cfp_sphinx \<Rightarrow> int \<Rightarrow> string \<Rightarrow> ppath \<Rightarrow> world \<Rightarrow> unit result" where
  "gen_churches self l_id l_name pdir w =
     (case query (cur self) sql_church [l_id] w of
        (churches, w1) \<Rightarrow>
          and_then
            (foreach churches
               (\<lambda>(ch_id, ch_name) ch_list w.
                  and_then
                    (make_dirs self (pj (pj pdir (Rel [''church''])) (Rel [str_int ch_id])) w)
                    (\<lambda>u. Ret (ch_list @ format3 (''uezd/'' @ str_int ch_id @ ''/index\<newline>''))))
               [] w1)
            (\<lambda>ch_list. gen_tree_index self pdir (tree_templ (PyStr l_name) ch_list)))"

definition gen_localities :: "cfp_sphinx \<Rightarrow> int \<Rightarrow> string \<Rightarrow> ppath \<Rightarrow> world \<Rightarrow> unit result" where
  "gen_localities self u_id u_name pdir w =
     (case query (cur self) sql_locality [u_id] w of
        (localities, w1) \<Rightarrow>
          and_then
            (foreach localities
               (\<lambda>(l_id, l_name) l_list w.
                  and_then
                    (make_dirs self (pj (pj pdir (Rel [''locality''])) (Rel [str_int l_id])) w)
                    (\<lambda>u w.
                       and_then
                         (gen_churches self l_id l_name
                            (pj (pj pdir (Rel [''locality''])) (Rel [str_int l_id])) w)
                         (\<lambda>u. Ret (l_list @ format3 (''uezd/'' @ str_int l_id @ ''/index\<newline>'')))))
               [] w1)
            (\<lambda>l_list. gen_tree_index self pdir (tree_templ (PyStr u_name) l_list)))"

definition gen_uezds :: "cfp_sphinx \<Rightarrow> int \<Rightarrow> string \<Rightarrow> ppath \<Rightarrow> world \<Rightarrow> unit result" where
  "gen_uezds self g_id g_name pdir w =
     (case query (cur self) sql_uezd [g_id] w of
        (uezds, w1) \<Rightarrow>
          and_then
            (foreach uezds
               (\<lambda>(u_id, u_name) u_list w.
                  and_then
                    (make_dirs self (pj (pj pdir (Rel [''uezd''])) (Rel [str_int u_id])) w)
                    (\<lambda>u w.
                       and_then
                         (gen_localities self u_id u_name
                            (pj (pj pdir (Rel [''uezd''])) (Rel [str_int u_id])) w)
                         (\<lambda>u. Ret (u_list @ format3 (''uezd/'' @ str_int u_id @ ''/index\<newline>'')))))
               [] w1)
            (\<lambda>u_list. gen_tree_index self pdir (tree_templ (PyStr g_name) u_list)))"

definition gen_gubernias :: "cfp_sphinx \<Rightarrow> ppath \<Rightarrow> world \<Rightarrow> unit result" where
  "gen_gubernias self rdir w =
     (case query (cur self) sql_gubernia [] w of
        (gubernias, w1) \<Rightarrow>
          and_then
            (foreach gubernias
               (\<lambda>(g_id, g_name) g_list w.
                  and_then
                    (make_dirs self (pj (pj rdir (Rel [''gubernia''])) (Rel [str_int g_id]))
                       (py_print (g_name @ CHR 0x09 # ''loading...'') '' '' (w\<lparr>current_gub := g_name\<rparr>)))
                    (\<lambda>u w.
                       and_then
                         (gen_uezds self g_id g_name
                            (pj (pj rdir (Rel [''gubernia''])) (Rel [str_int g_id])) w)
                         (\<lambda>u w. Ret (g_list @ format3 (str_int g_id) @ ''/index'' @ ''\<newline>'')
                                  (py_print (CHR 0x0D # current_gub w @ CHR 0x09 # ''Done!     '') ''\<newline>'' w))))
               [] w1)
            (\<lambda>g_list. gen_tree_index self (Rel [''gubernia'']) (tree_templ PyNone g_list)))"

definition generate :: "cfp_sphinx \<Rightarrow> world \<Rightarrow> unit result" where
  "generate self w = and_then (make_dirs self (root_dir self) w) (\<lambda>u. gen_gubernias self (root_dir self))"

text \<open>
  \<^verbatim>\<open>main\<close> builds the object and calls \<^verbatim>\<open>generate\<close>. The interpreter ends the process
  with status 0 when \<^verbatim>\<open>main\<close> returns, with status \<open>n\<close> after \<^verbatim>\<open>sys.exit(n)\<close>, and
  with status 1 after printing a traceback on the standard error stream when an
  exception reaches the top.
\<close>

definition main :: "string + db \<Rightarrow> world \<Rightarrow> unit result" where
  "main conn w = and_then (init conn w) generate"

definition run_script :: "string + db \<Rightarrow> world \<Rightarrow> int \<times> world" where
  "run_script conn w =
     (case main conn w of
        Ret u w' \<Rightarrow> (0, w')
      | Halt (SysExit n) w' \<Rightarrow> (n, w')
      | Halt (Uncaught e) w' \<Rightarrow>
          (1, w'\<lparr>stderr := stderr w' @ [Traceback e]\<rparr>))"

section \<open>The file-system operations of a run\<close>

text \<open>
  The traversal asks the data store which rows there are and the file system to make
  directories and write files; which operations it asks for depends on the rows only.
  \<open>generate_plan\<close> lists them in the order of the calls, \<open>exec\<close> carries a list of
  operations out up to the first one that fails, and \<open>performs\<close> says that a method
  does to the file system exactly what \<open>exec\<close> does with a plan, ending the run as the
  method does: \<^verbatim>\<open>make_dirs\<close> by \<^verbatim>\<open>sys.exit(1)\<close> after printing its message,
  \<^verbatim>\<open>file_write\<close> by the uncaught error. That every method performs its plan is proved
  below (\<open>performs_generate\<close>); the claims are then settled on the runs of \<open>generate\<close>
  through the plan.
\<close>

datatype fsop = MkDirs "string list" | WriteFile "string list" string

fun os_apply :: "faults \<Rightarrow> fsmap \<Rightarrow> fsop \<Rightarrow> oserror option \<times> fsmap" where
  "os_apply D N (MkDirs p) = os_makedirs D N p"
| "os_apply D N (WriteFile p rst) = os_write_file D N p rst"

fun stop_of :: "fsop \<Rightarrow> oserror \<Rightarrow> stop" where
  "stop_of (MkDirs p) e = SysExit 1"
| "stop_of (WriteFile p rst) e = Uncaught e"

fun exec :: "faults \<Rightarrow> fsmap \<Rightarrow> fsop list \<Rightarrow> (fsop \<times> oserror) option \<times> fsmap" where
  "exec D N [] = (None, N)"
| "exec D N (x # xs) =
     (case os_apply D N x of
        (None, N') \<Rightarrow> exec D N' xs
      | (Some e, N') \<Rightarrow> (Some (x, e), N'))"

fun reported :: "fsop \<Rightarrow> oserror \<Rightarrow> world \<Rightarrow> bool" where
  "reported (MkDirs p) e w =
     (stdout w \<noteq> [] \<and> last (stdout w) = ''Could not create directory: '' @ str_oserror e @ ''\<newline>'')"
| "reported (WriteFile p rst) e w = True"

fun agrees :: "(fsop \<times> oserror) option \<times> fsmap \<Rightarrow> world \<Rightarrow> 'a \<Rightarrow> 'a result \<Rightarrow> bool" where
  "agrees (None, N') w v r =
     (\<exists>w'. r = Ret v w' \<and> nodes w' = N' \<and> deny w' = deny w \<and> stderr w' = stderr w)"
| "agrees (Some (x, e), N') w v r =
     (\<exists>w'. r = Halt (stop_of x e) w' \<and> nodes w' = N' \<and> deny w' = deny w \<and> stderr w' = stderr w
           \<and> reported x e w')"

definition performs :: "(world \<Rightarrow> 'a result) \<Rightarrow> fsop list \<Rightarrow> 'a \<Rightarrow> bool" where
  "performs prog ops v = (\<forall>w. agrees (exec (deny w) (nodes w) ops) w v (prog w))"

definition churches_of :: "db \<Rightarrow> int \<Rightarrow> (int \<times> string) list" where
  "churches_of d l_id = run_select d sql_church [l_id]"

definition localities_of :: "db \<Rightarrow> int \<Rightarrow> (int \<times> string) list" where
  "localities_of d u_id = run_select d sql_locality [u_id]"

definition uezds_of :: "db \<Rightarrow> int \<Rightarrow> (int \<times> string) list" where
  "uezds_of d g_id = run_select d sql_uezd [g_id]"

definition gubernias_of :: "db \<Rightarrow> (int \<times> string) list" where
  "gubernias_of d = run_select d sql_gubernia []"

definition church_link :: "int \<times> string \<Rightarrow> string" where
  "church_link = (\<lambda>(ch_id, ch_name). format3 (''uezd/'' @ str_int ch_id @ ''/index\<newline>''))"

definition locality_link :: "int \<times> string \<Rightarrow> string" where
  "locality_link = (\<lambda>(l_id, l_name). format3 (''uezd/'' @ str_int l_id @ ''/index\<newline>''))"

definition uezd_link :: "int \<times> string \<Rightarrow> string" where
  "uezd_link = (\<lambda>(u_id, u_name). format3 (''uezd/'' @ str_int u_id @ ''/index\<newline>''))"

definition gubernia_link :: "int \<times> string \<Rightarrow> string" where
  "gubernia_link = (\<lambda>(g_id, g_name). format3 (str_int g_id) @ ''/index'' @ ''\<newline>'')"

definition churches_plan :: "db \<Rightarrow> string list \<Rightarrow> int \<Rightarrow> string \<Rightarrow> fsop list" where
  "churches_plan d pdir l_id l_name =
     concat (map (\<lambda>(ch_id, ch_name). [MkDirs (pdir @ [''church'', str_int ch_id])]) (churches_of d l_id))
     @ [WriteFile (pdir @ [''index.rst''])
          (tree_templ (PyStr l_name) (concat (map church_link (churches_of d l_id))))]"

definition localities_plan :: "db \<Rightarrow> string list \<Rightarrow> int \<Rightarrow> string \<Rightarrow> fsop list" where
  "localities_plan d pdir u_id u_name =
     concat (map (\<lambda>(l_id, l_name).
                    MkDirs (pdir @ [''locality'', str_int l_id])
                    # churches_plan d (pdir @ [''locality'', str_int l_id]) l_id l_name)
               (localities_of d u_id))
     @ [WriteFile (pdir @ [''index.rst''])
          (tree_templ (PyStr u_name) (concat (map locality_link (localities_of d u_id))))]"

definition uezds_plan :: "db \<Rightarrow> string list \<Rightarrow> int \<Rightarrow> string \<Rightarrow> fsop list" where
  "uezds_plan d pdir g_id g_name =
     concat (map (\<lambda>(u_id, u_name).
                    MkDirs (pdir @ [''uezd'', str_int u_id])
                    # localities_plan d (pdir @ [''uezd'', str_int u_id]) u_id u_name)
               (uezds_of d g_id))
     @ [WriteFile (pdir @ [''index.rst''])
          (tree_templ (PyStr g_name) (concat (map uezd_link (uezds_of d g_id))))]"

definition gubernias_plan :: "db \<Rightarrow> string list \<Rightarrow> fsop list" where
  "gubernias_plan d r =
     concat (map (\<lambda>(g_id, g_name).
                    MkDirs (r @ [''gubernia'', str_int g_id])
                    # uezds_plan d (r @ [''gubernia'', str_int g_id]) g_id g_name)
               (gubernias_of d))
     @ [WriteFile (r @ [''gubernia'', ''index.rst''])
          (tree_templ PyNone (concat (map gubernia_link (gubernias_of d))))]"

definition generate_plan :: "db \<Rightarrow> string list \<Rightarrow> fsop list" where
  "generate_plan d r = MkDirs r # gubernias_plan d r"

section \<open>Notions for the proofs\<close>

text \<open>
  Notions for what a list of operations does to a file system: \<open>grows\<close> (a directory
  stays a directory, a file stays a file), the contents last \<open>written\<close> to a path, the
  directories \<open>made\<close> (the paths of the \<^verbatim>\<open>makedirs\<close> calls and their ancestors), the file
  system \<open>after\<close> a run that succeeds, and the same operations carried out once more
  (\<open>rewrite\<close>).
\<close>

definition grows :: "fsmap \<Rightarrow> fsmap \<Rightarrow> bool" where
  "grows N M = (\<forall>p. (N p = Some Dir \<longrightarrow> M p = Some Dir) \<and> (\<forall>c. N p = Some (File c) \<longrightarrow> (\<exists>c'. M p = Some (File c'))))"

fun written :: "fsop list \<Rightarrow> string list \<Rightarrow> string option" where
  "written [] p = None"
| "written (x # xs) p =
     (case written xs p of
        Some c \<Rightarrow> Some c
      | None \<Rightarrow> (case x of WriteFile q c \<Rightarrow> if q = p then Some c else None | MkDirs q \<Rightarrow> None))"

definition made :: "fsop list \<Rightarrow> string list set" where
  "made xs = {p. p \<noteq> [] \<and> (\<exists>q. MkDirs q \<in> set xs \<and> prefix p q)}"

definition after :: "fsop list \<Rightarrow> fsmap \<Rightarrow> fsmap" where
  "after xs N = (\<lambda>p. case written xs p of
                       Some c \<Rightarrow> Some (File c)
                     | None \<Rightarrow> if N p = None \<and> p \<in> made xs then Some Dir else N p)"

fun rewrite :: "fsop list \<Rightarrow> fsmap \<Rightarrow> fsmap" where
  "rewrite [] M = M"
| "rewrite (MkDirs q # xs) M = rewrite xs M"
| "rewrite (WriteFile p c # xs) M = rewrite xs (M(p \<mapsto> File c))"

text \<open>
  The directories of a file system; those of them that are children \<open>parent/kind/x\<close> of
  a parent; the directories of the rows of a query, \<open>parent/kind/<id>\<close>.
\<close>

definition dirs :: "fsmap \<Rightarrow> string list set" where
  "dirs N = {p. N p = Some Dir}"

definition child_dirs :: "string list set \<Rightarrow> string list \<Rightarrow> string \<Rightarrow> string list set" where
  "child_dirs S parent kind = {p \<in> S. \<exists>x. p = parent @ [kind, x]}"

definition row_dirs :: "string list \<Rightarrow> string \<Rightarrow> (int \<times> string) list \<Rightarrow> string list set" where
  "row_dirs parent kind rows = (\<lambda>(i, n). parent @ [kind, str_int i]) ` set rows"

text \<open>
  The directories a run has created, from the file system before it and the one after
  it; and the rows of a query whose directory \<open>parent/kind/<id>\<close> is not there yet.
\<close>

definition created :: "fsmap \<Rightarrow> fsmap \<Rightarrow> string list set" where
  "created N N' = dirs N' - dirs N"

definition missing_rows :: "fsmap \<Rightarrow> string list \<Rightarrow> string \<Rightarrow> (int \<times> string) list \<Rightarrow> (int \<times> string) list" where
  "missing_rows N parent kind rows = filter (\<lambda>(i, n). N (parent @ [kind, str_int i]) \<noteq> Some Dir) rows"

text \<open>
  A list of statements that holds the four \<^verbatim>\<open>SELECT\<close> texts only, and a method that sends
  such statements only, whether it returns or ends the run.
\<close>

definition selects :: "(string \<times> int list) list \<Rightarrow> bool" where
  "selects stmts = (\<forall>(sql, params) \<in> set stmts. sql \<in> {sql_gubernia, sql_uezd, sql_locality, sql_church})"

definition reads_only :: "(world \<Rightarrow> 'a result) \<Rightarrow> bool" where
  "reads_only prog = (\<forall>w. \<exists>stmts. issued (final (prog w)) = issued w @ stmts \<and> selects stmts)"

section \<open>Example data\<close>

text \<open>
  Data for the examples: one gubernia, one uezd in it, one locality in the uezd and one
  church in the locality (\<open>ex_db\<close>); one gubernia named Oblast with one uezd named Rayon
  and nothing below (\<open>oblast_db\<close>); two gubernias, the first with two uezds
  (\<open>two_db\<close>); two rows of \<^verbatim>\<open>cfp_gubernia\<close> with the same id (\<open>dup_db\<close>); four empty
  tables (\<open>empty_db\<close>).

  A process in \<^verbatim>\<open>/srv\<close> on a file system that holds this directory only and where
  nothing fails (\<open>ex_world\<close>); one where \<^verbatim>\<open>/srv/nsa\<close> is there already (\<open>ex_world2\<close>); one
  where \<^verbatim>\<open>/srv/nsa\<close> is a regular file (\<open>blocked_world\<close>); and one that holds the root
  index of an earlier run on a medium that has become full (\<open>full_world\<close>).
\<close>

definition ex_db :: db where
  "ex_db = \<lparr>cfp_gubernia = [(1, ''Oblast'')], cfp_uezd = [(10, 1, ''Rayon'')],
            cfp_locality = [(7, 10, ''Selo'')], cfp_church = [(3, 7, ''Khram'')]\<rparr>"


definition two_db :: db where
  "two_db = \<lparr>cfp_gubernia = [(1, ''Oblast''), (2, ''Krai'')],
             cfp_uezd = [(10, 1, ''Rayon''), (11, 1, ''Okrug'')],
             cfp_locality = [], cfp_church = []\<rparr>"

definition dup_db :: db where
  "dup_db = \<lparr>cfp_gubernia = [(1, ''Oblast''), (1, ''Krai'')], cfp_uezd = [],
             cfp_locality = [], cfp_church = []\<rparr>"

definition empty_db :: db where
  "empty_db = \<lparr>cfp_gubernia = [], cfp_uezd = [], cfp_locality = [], cfp_church = []\<rparr>"

definition ex_world :: world where
  "ex_world = \<lparr>nodes = [[''srv''] \<mapsto> Dir], deny = Map.empty, cwd = [''srv''], stdout = [], stderr = [],
               issued = [], current_gub = []\<rparr>"

definition ex_world2 :: world where
  "ex_world2 = \<lparr>nodes = [[''srv''] \<mapsto> Dir, [''srv'', ''nsa''] \<mapsto> Dir,
                         [''srv'', ''nsa'', ''old.txt''] \<mapsto> File ''kept''],
                deny = Map.empty, cwd = [''srv''], stdout = [], stderr = [],
                issued = [], current_gub = []\<rparr>"

definition blocked_world :: world where
  "blocked_world = \<lparr>nodes = [[''srv''] \<mapsto> Dir, [''srv'', ''nsa''] \<mapsto> File ''notes''],
                    deny = Map.empty, cwd = [''srv''], stdout = [], stderr = [],
                    issued = [], current_gub = []\<rparr>"

definition full_world :: world where
  "full_world = \<lparr>nodes = [[''srv''] \<mapsto> Dir, [''srv'', ''nsa''] \<mapsto> Dir, [''srv'', ''nsa'', ''cfp''] \<mapsto> Dir,
                          [''srv'', ''nsa'', ''cfp'', ''gubernia''] \<mapsto> Dir,
                          [''srv'', ''nsa'', ''cfp'', ''gubernia'', ''index.rst''] \<mapsto> File ''old''],
                 deny = [[''srv'', ''nsa'', ''cfp'', ''gubernia'', ''index.rst''] \<mapsto> Cut ENOSPC 0],
                 cwd = [''srv''], stdout = [], stderr = [], issued = [], current_gub = []\<rparr>"

definition ex_root :: "string list" where
  "ex_root = [''srv'', ''nsa'', ''cfp'']"

section \<open>Every method performs its plan\<close>

lemma exec_append:
  "exec D N (xs @ ys) =
     (case exec D N xs of (None, N') \<Rightarrow> exec D N' ys | (Some f, N') \<Rightarrow> (Some f, N'))"
  by (induction xs arbitrary: N) (auto split: prod.splits option.splits)

lemma performsD: "performs prog ops v \<Longrightarrow> agrees (exec (deny w) (nodes w) ops) w v (prog w)"
  by (simp add: performs_def)

lemma agrees_cong:
  assumes "deny w1 = deny w" and "stderr w1 = stderr w"
  shows "agrees res w1 v r = agrees res w v r"
proof -
  obtain a N' where res: "res = (a, N')" by (cases res)
  show ?thesis
  proof (cases a)
    case None
    with res assms show ?thesis by simp
  next
    case (Some xe)
    with res assms show ?thesis by (cases xe) simp
  qed
qed

lemma performs_pure:
  assumes "\<And>w. nodes (g w) = nodes w" and "\<And>w. deny (g w) = deny w" and "\<And>w. stderr (g w) = stderr w"
  shows "performs (\<lambda>w. Ret v (g w)) [] v"
  using assms by (simp add: performs_def)

lemma performs_and_then:
  assumes p: "performs p ops1 v" and f: "performs (f v) ops2 v2"
  shows "performs (\<lambda>w. and_then (p w) f) (ops1 @ ops2) v2"
  unfolding performs_def
proof
  fix w :: world
  obtain a N1 where ex: "exec (deny w) (nodes w) ops1 = (a, N1)"
    by (cases "exec (deny w) (nodes w) ops1")
  show "agrees (exec (deny w) (nodes w) (ops1 @ ops2)) w v2 (and_then (p w) f)"
  proof (cases a)
    case None
    with ex performsD [OF p, of w] obtain w1 where w1: "p w = Ret v w1" "nodes w1 = N1"
      "deny w1 = deny w" "stderr w1 = stderr w"
      by auto
    from performsD [OF f, of w1] have "agrees (exec (deny w1) (nodes w1) ops2) w v2 (f v w1)"
      by (simp add: agrees_cong [OF w1(3,4)])
    with ex None w1 show ?thesis
      by (simp add: exec_append)
  next
    case (Some xe)
    with ex performsD [OF p, of w] obtain w1 where "p w = Halt (stop_of (fst xe) (snd xe)) w1" "nodes w1 = N1"
      "deny w1 = deny w" "stderr w1 = stderr w" "reported (fst xe) (snd xe) w1"
      by (cases xe) auto
    with ex Some show ?thesis
      by (cases xe) (simp add: exec_append)
  qed
qed

lemma performs_foreach:
  assumes "\<And>x acc. x \<in> set xs \<Longrightarrow> performs (body x acc) (ops x) (acc @ link x)"
  shows "performs (foreach xs body acc) (concat (map ops xs)) (acc @ concat (map link xs))"
  using assms
proof (induction xs arbitrary: acc)
  case Nil
  show ?case by (simp add: performs_def)
next
  case (Cons x xs)
  have 1: "performs (body x acc) (ops x) (acc @ link x)"
    using Cons.prems by simp
  have 2: "performs (foreach xs body (acc @ link x)) (concat (map ops xs)) ((acc @ link x) @ concat (map link xs))"
    by (rule Cons.IH) (simp add: Cons.prems)
  have "performs (\<lambda>w. and_then (body x acc w) (foreach xs body)) (ops x @ concat (map ops xs)) ((acc @ link x) @ concat (map link xs))"
    using 1 2 by (rule performs_and_then)
  then show ?case by (simp add: performs_def)
qed

lemma performs_issued:
  assumes "performs prog ops v"
  shows "performs (\<lambda>w. prog (w\<lparr>issued := g w\<rparr>)) ops v"
  unfolding performs_def
proof
  fix w :: world
  have "agrees res (w\<lparr>issued := g w\<rparr>) v r = agrees res w v r" for res r
    by (rule agrees_cong) simp_all
  with performsD [OF assms, of "w\<lparr>issued := g w\<rparr>"]
  show "agrees (exec (deny w) (nodes w) ops) w v (prog (w\<lparr>issued := g w\<rparr>))"
    by simp
qed

lemma performs_pre:
  assumes "performs prog ops v" and "\<And>w. nodes (g w) = nodes w" and "\<And>w. deny (g w) = deny w"
    and "\<And>w. stderr (g w) = stderr w"
  shows "performs (\<lambda>w. prog (g w)) ops v"
  unfolding performs_def
proof
  fix w :: world
  have "agrees res (g w) v r = agrees res w v r" for res r
    by (rule agrees_cong) (simp_all add: assms)
  with performsD [OF assms(1), of "g w"]
  show "agrees (exec (deny w) (nodes w) ops) w v (prog (g w))"
    by (simp add: assms(2,3))
qed

lemma performs_make_dirs:
  "performs (make_dirs \<lparr>cur = d, root_dir = Abs r\<rparr> (Abs p)) [MkDirs p] ()"
  by (auto simp: performs_def make_dirs_def resolve_def py_print_def split: prod.splits option.splits)

lemma performs_file_write_Abs:
  "performs (file_write \<lparr>cur = d, root_dir = Abs r\<rparr> (Abs p) rst) [WriteFile p rst] ()"
  by (auto simp: performs_def file_write_def resolve_def split: prod.splits option.splits)

lemma performs_file_write_Rel:
  "performs (file_write \<lparr>cur = d, root_dir = Abs r\<rparr> (Rel p) rst) [WriteFile (r @ p) rst] ()"
  by (auto simp: performs_def file_write_def resolve_def split: prod.splits option.splits)

lemma performs_gen_tree_index:
  "performs (gen_tree_index \<lparr>cur = d, root_dir = Abs r\<rparr> (Abs p) rst) [WriteFile (p @ [''index.rst'']) rst] ()"
  using performs_file_write_Abs [of d r "p @ [''index.rst'']" rst]
  by (simp add: performs_def gen_tree_index_def)

lemma performs_gen_churches:
  "performs (gen_churches \<lparr>cur = d, root_dir = Abs r\<rparr> l_id l_name (Abs pdir)) (churches_plan d pdir l_id l_name) ()"
proof -
  let ?self = "\<lparr>cur = d, root_dir = Abs r\<rparr>"
  let ?body = "\<lambda>(ch_id, ch_name) ch_list w.
                  and_then
                    (make_dirs ?self (pj (pj (Abs pdir) (Rel [''church''])) (Rel [str_int ch_id])) w)
                    (\<lambda>u. Ret (ch_list @ format3 (''uezd/'' @ str_int ch_id @ ''/index\<newline>'')))"
  have body: "performs (?body x acc) ((\<lambda>(ch_id, ch_name). [MkDirs (pdir @ [''church'', str_int ch_id])]) x) (acc @ church_link x)" for x acc
  proof (cases x)
    case (Pair ch_id ch_name)
    have "performs (\<lambda>w. and_then (make_dirs ?self (Abs (pdir @ [''church'', str_int ch_id])) w)
                     (\<lambda>u. Ret (acc @ format3 (''uezd/'' @ str_int ch_id @ ''/index\<newline>''))))
            ([MkDirs (pdir @ [''church'', str_int ch_id])] @ []) (acc @ format3 (''uezd/'' @ str_int ch_id @ ''/index\<newline>''))"
      by (rule performs_and_then [OF performs_make_dirs]) (simp add: performs_def)
    with Pair show ?thesis by (simp add: church_link_def)
  qed
  have loop: "performs (foreach (churches_of d l_id) ?body [])
                (concat (map (\<lambda>(ch_id, ch_name). [MkDirs (pdir @ [''church'', str_int ch_id])]) (churches_of d l_id)))
                ([] @ concat (map church_link (churches_of d l_id)))"
    by (rule performs_foreach) (rule body)
  have "performs (\<lambda>w. and_then (foreach (churches_of d l_id) ?body [] w)
                        (\<lambda>ch_list. gen_tree_index ?self (Abs pdir) (tree_templ (PyStr l_name) ch_list)))
          (churches_plan d pdir l_id l_name) ()"
    unfolding churches_plan_def
    by (rule performs_and_then [OF loop]) (simp add: performs_gen_tree_index)
  from performs_issued [OF this, of "\<lambda>w. issued w @ [(sql_church, [l_id])]"]
  show ?thesis
    by (simp add: performs_def gen_churches_def query_def churches_of_def)
qed

lemma performs_gen_localities:
  "performs (gen_localities \<lparr>cur = d, root_dir = Abs r\<rparr> u_id u_name (Abs pdir)) (localities_plan d pdir u_id u_name) ()"
proof -
  let ?self = "\<lparr>cur = d, root_dir = Abs r\<rparr>"
  let ?body = "\<lambda>(l_id, l_name) l_list w.
                  and_then
                    (make_dirs ?self (pj (pj (Abs pdir) (Rel [''locality''])) (Rel [str_int l_id])) w)
                    (\<lambda>u w.
                       and_then
                         (gen_churches ?self l_id l_name
                            (pj (pj (Abs pdir) (Rel [''locality''])) (Rel [str_int l_id])) w)
                         (\<lambda>u. Ret (l_list @ format3 (''uezd/'' @ str_int l_id @ ''/index\<newline>''))))"
  let ?ops = "\<lambda>(l_id, l_name).
                    MkDirs (pdir @ [''locality'', str_int l_id])
                    # churches_plan d (pdir @ [''locality'', str_int l_id]) l_id l_name"
  have body: "performs (?body x acc) (?ops x) (acc @ locality_link x)" for x acc
  proof (cases x)
    case (Pair l_id l_name)
    let ?cdir = "pdir @ [''locality'', str_int l_id]"
    let ?acc = "acc @ format3 (''uezd/'' @ str_int l_id @ ''/index\<newline>'')"
    have inner: "performs (\<lambda>w. and_then (gen_churches ?self l_id l_name (Abs ?cdir) w) (\<lambda>u. Ret ?acc))
                   (churches_plan d ?cdir l_id l_name @ []) ?acc"
      by (rule performs_and_then [OF performs_gen_churches]) (simp add: performs_def)
    have "performs (\<lambda>w. and_then (make_dirs ?self (Abs ?cdir) w)
                     (\<lambda>u w. and_then (gen_churches ?self l_id l_name (Abs ?cdir) w) (\<lambda>u. Ret ?acc)))
            ([MkDirs ?cdir] @ churches_plan d ?cdir l_id l_name) ?acc"
      using inner by (intro performs_and_then [OF performs_make_dirs]) simp
    with Pair show ?thesis by (simp add: locality_link_def)
  qed
  have loop: "performs (foreach (localities_of d u_id) ?body [])
                (concat (map ?ops (localities_of d u_id)))
                ([] @ concat (map locality_link (localities_of d u_id)))"
    by (rule performs_foreach) (rule body)
  have "performs (\<lambda>w. and_then (foreach (localities_of d u_id) ?body [] w)
                        (\<lambda>l_list. gen_tree_index ?self (Abs pdir) (tree_templ (PyStr u_name) l_list)))
          (localities_plan d pdir u_id u_name) ()"
    unfolding localities_plan_def
    by (rule performs_and_then [OF loop]) (simp add: performs_gen_tree_index)
  from performs_issued [OF this, of "\<lambda>w. issued w @ [(sql_locality, [u_id])]"]
  show ?thesis
    by (simp add: performs_def gen_localities_def query_def localities_of_def)
qed

lemma performs_gen_uezds:
  "performs (gen_uezds \<lparr>cur = d, root_dir = Abs r\<rparr> g_id g_name (Abs pdir)) (uezds_plan d pdir g_id g_name) ()"
proof -
  let ?self = "\<lparr>cur = d, root_dir = Abs r\<rparr>"
  let ?body = "\<lambda>(u_id, u_name) u_list w.
                  and_then
                    (make_dirs ?self (pj (pj (Abs pdir) (Rel [''uezd''])) (Rel [str_int u_id])) w)
                    (\<lambda>u w.
                       and_then
                         (gen_localities ?self u_id u_name
                            (pj (pj (Abs pdir) (Rel [''uezd''])) (Rel [str_int u_id])) w)
                         (\<lambda>u. Ret (u_list @ format3 (''uezd/'' @ str_int u_id @ ''/index\<newline>''))))"
  let ?ops = "\<lambda>(u_id, u_name).
                    MkDirs (pdir @ [''uezd'', str_int u_id])
                    # localities_plan d (pdir @ [''uezd'', str_int u_id]) u_id u_name"
  have body: "performs (?body x acc) (?ops x) (acc @ uezd_link x)" for x acc
  proof (cases x)
    case (Pair u_id u_name)
    let ?cdir = "pdir @ [''uezd'', str_int u_id]"
    let ?acc = "acc @ format3 (''uezd/'' @ str_int u_id @ ''/index\<newline>'')"
    have inner: "performs (\<lambda>w. and_then (gen_localities ?self u_id u_name (Abs ?cdir) w) (\<lambda>u. Ret ?acc))
                   (localities_plan d ?cdir u_id u_name @ []) ?acc"
      by (rule performs_and_then [OF performs_gen_localities]) (simp add: performs_def)
    have "performs (\<lambda>w. and_then (make_dirs ?self (Abs ?cdir) w)
                     (\<lambda>u w. and_then (gen_localities ?self u_id u_name (Abs ?cdir) w) (\<lambda>u. Ret ?acc)))
            ([MkDirs ?cdir] @ localities_plan d ?cdir u_id u_name) ?acc"
      using inner by (intro performs_and_then [OF performs_make_dirs]) simp
    with Pair show ?thesis by (simp add: uezd_link_def)
  qed
  have loop: "performs (foreach (uezds_of d g_id) ?body [])
                (concat (map ?ops (uezds_of d g_id)))
                ([] @ concat (map uezd_link (uezds_of d g_id)))"
    by (rule performs_foreach) (rule body)
  have "performs (\<lambda>w. and_then (foreach (uezds_of d g_id) ?body [] w)
                        (\<lambda>u_list. gen_tree_index ?self (Abs pdir) (tree_templ (PyStr g_name) u_list)))
          (uezds_plan d pdir g_id g_name) ()"
    unfolding uezds_plan_def
    by (rule performs_and_then [OF loop]) (simp add: performs_gen_tree_index)
  from performs_issued [OF this, of "\<lambda>w. issued w @ [(sql_uezd, [g_id])]"]
  show ?thesis
    by (simp add: performs_def gen_uezds_def query_def uezds_of_def)
qed

lemma performs_gen_gubernias:
  "performs (gen_gubernias \<lparr>cur = d, root_dir = Abs r\<rparr> (Abs r)) (gubernias_plan d r) ()"
proof -
  let ?self = "\<lparr>cur = d, root_dir = Abs r\<rparr>"
  let ?body = "\<lambda>(g_id, g_name) g_list w.
                  and_then
                    (make_dirs ?self (pj (pj (Abs r) (Rel [''gubernia''])) (Rel [str_int g_id]))
                       (py_print (g_name @ CHR 0x09 # ''loading...'') '' '' (w\<lparr>current_gub := g_name\<rparr>)))
                    (\<lambda>u w.
                       and_then
                         (gen_uezds ?self g_id g_name
                            (pj (pj (Abs r) (Rel [''gubernia''])) (Rel [str_int g_id])) w)
                         (\<lambda>u w. Ret (g_list @ format3 (str_int g_id) @ ''/index'' @ ''\<newline>'')
                                  (py_print (CHR 0x0D # current_gub w @ CHR 0x09 # ''Done!     '') ''\<newline>'' w)))"
  let ?ops = "\<lambda>(g_id, g_name).
                    MkDirs (r @ [''gubernia'', str_int g_id])
                    # uezds_plan d (r @ [''gubernia'', str_int g_id]) g_id g_name"
  have body: "performs (?body x acc) (?ops x) (acc @ gubernia_link x)" for x acc
  proof (cases x)
    case (Pair g_id g_name)
    let ?cdir = "r @ [''gubernia'', str_int g_id]"
    let ?acc = "acc @ format3 (str_int g_id) @ ''/index'' @ ''\<newline>''"
    let ?k = "\<lambda>u w. and_then (gen_uezds ?self g_id g_name (Abs ?cdir) w)
                       (\<lambda>u w. Ret ?acc (py_print (CHR 0x0D # current_gub w @ CHR 0x09 # ''Done!     '') ''\<newline>'' w))"
    have fin: "performs (\<lambda>w. Ret ?acc (py_print (CHR 0x0D # current_gub w @ CHR 0x09 # ''Done!     '') ''\<newline>'' w)) [] ?acc"
      by (rule performs_pure) (simp_all add: py_print_def)
    have inner: "performs (\<lambda>w. and_then (gen_uezds ?self g_id g_name (Abs ?cdir) w)
                       (\<lambda>u w. Ret ?acc (py_print (CHR 0x0D # current_gub w @ CHR 0x09 # ''Done!     '') ''\<newline>'' w)))
                   (uezds_plan d ?cdir g_id g_name @ []) ?acc"
      by (rule performs_and_then [OF performs_gen_uezds]) (rule fin)
    have "performs (\<lambda>w. and_then (make_dirs ?self (Abs ?cdir) w) ?k)
            ([MkDirs ?cdir] @ uezds_plan d ?cdir g_id g_name) ?acc"
      using inner by (intro performs_and_then [OF performs_make_dirs]) simp
    from performs_pre [OF this, of "\<lambda>w. py_print (g_name @ CHR 0x09 # ''loading...'') '' '' (w\<lparr>current_gub := g_name\<rparr>)"]
    have "performs (\<lambda>w. and_then (make_dirs ?self (Abs ?cdir)
                       (py_print (g_name @ CHR 0x09 # ''loading...'') '' '' (w\<lparr>current_gub := g_name\<rparr>))) ?k)
            ([MkDirs ?cdir] @ uezds_plan d ?cdir g_id g_name) ?acc"
      by (simp add: py_print_def)
    with Pair show ?thesis by (simp add: gubernia_link_def)
  qed
  have loop: "performs (foreach (gubernias_of d) ?body [])
                (concat (map ?ops (gubernias_of d)))
                ([] @ concat (map gubernia_link (gubernias_of d)))"
    by (rule performs_foreach) (rule body)
  have idx: "performs (gen_tree_index ?self (Rel [''gubernia'']) rst) [WriteFile (r @ [''gubernia'', ''index.rst'']) rst] ()" for rst
    using performs_file_write_Rel [of d r "[''gubernia'', ''index.rst'']" rst]
    by (simp add: performs_def gen_tree_index_def)
  have "performs (\<lambda>w. and_then (foreach (gubernias_of d) ?body [] w)
                        (\<lambda>g_list. gen_tree_index ?self (Rel [''gubernia'']) (tree_templ PyNone g_list)))
          (gubernias_plan d r) ()"
    unfolding gubernias_plan_def
    by (rule performs_and_then [OF loop]) (simp add: idx)
  from performs_issued [OF this, of "\<lambda>w. issued w @ [(sql_gubernia, [])]"]
  show ?thesis
    by (simp add: performs_def gen_gubernias_def query_def gubernias_of_def)
qed

lemma performs_generate:
  "performs (generate \<lparr>cur = d, root_dir = Abs r\<rparr>) (generate_plan d r) ()"
proof -
  let ?self = "\<lparr>cur = d, root_dir = Abs r\<rparr>"
  have "performs (\<lambda>w. and_then (make_dirs ?self (Abs r) w) (\<lambda>u. gen_gubernias ?self (Abs r)))
          ([MkDirs r] @ gubernias_plan d r) ()"
    by (rule performs_and_then [OF performs_make_dirs]) (rule performs_gen_gubernias)
  then show ?thesis
    by (simp add: performs_def generate_def generate_plan_def)
qed

lemma agrees_final:
  assumes "agrees (a, N') w v r"
  shows "nodes (final r) = N' \<and> deny (final r) = deny w \<and> stderr (final r) = stderr w
         \<and> (returned r \<longleftrightarrow> a = None)"
proof (cases a)
  case None
  with assms have "\<exists>w'. r = Ret v w' \<and> nodes w' = N' \<and> deny w' = deny w \<and> stderr w' = stderr w"
    by (simp only: agrees.simps)
  then obtain w' where "r = Ret v w'" "nodes w' = N'" "deny w' = deny w" "stderr w' = stderr w"
    by blast
  with None show ?thesis by simp
next
  case (Some xe)
  obtain x e where xe: "xe = (x, e)" by (cases xe)
  with Some assms have "\<exists>w'. r = Halt (stop_of x e) w' \<and> nodes w' = N' \<and> deny w' = deny w
                          \<and> stderr w' = stderr w \<and> reported x e w'"
    by (simp only: agrees.simps)
  then obtain w' where "r = Halt (stop_of x e) w'" "nodes w' = N'" "deny w' = deny w" "stderr w' = stderr w"
    by blast
  with Some show ?thesis by simp
qed

lemma generate_exec:
  "\<exists>a. exec (deny w) (nodes w) (generate_plan d r)
          = (a, nodes (final (generate \<lparr>cur = d, root_dir = Abs r\<rparr> w)))
       \<and> deny (final (generate \<lparr>cur = d, root_dir = Abs r\<rparr> w)) = deny w
       \<and> (returned (generate \<lparr>cur = d, root_dir = Abs r\<rparr> w) \<longleftrightarrow> a = None)"
proof -
  obtain a N' where e: "exec (deny w) (nodes w) (generate_plan d r) = (a, N')"
    by (cases "exec (deny w) (nodes w) (generate_plan d r)")
  from performsD [OF performs_generate [of d r], of w] e
  have "agrees (a, N') w () (generate \<lparr>cur = d, root_dir = Abs r\<rparr> w)" by simp
  from agrees_final [OF this] e show ?thesis by simp
qed

lemma generate_returned:
  assumes "returned (generate \<lparr>cur = d, root_dir = Abs r\<rparr> w)"
  shows "exec (deny w) (nodes w) (generate_plan d r)
           = (None, nodes (final (generate \<lparr>cur = d, root_dir = Abs r\<rparr> w)))"
  using generate_exec [of w d r] assms by auto

lemma generate_exec_ok:
  assumes "exec (deny w) (nodes w) (generate_plan d r) = (None, N')"
  shows "returned (generate \<lparr>cur = d, root_dir = Abs r\<rparr> w)
         \<and> nodes (final (generate \<lparr>cur = d, root_dir = Abs r\<rparr> w)) = N'"
  using generate_exec [of w d r] assms by auto

lemma main_generate:
  "main (Inr d) w = generate \<lparr>cur = d, root_dir = Abs (cwd w @ [''nsa'', ''cfp''])\<rparr> (w\<lparr>current_gub := []\<rparr>)"
  by (simp add: main_def init_def)

section \<open>What a list of operations does\<close>

lemma grows_refl: "grows N N"
  by (simp add: grows_def)

lemma grows_trans: "grows N M \<Longrightarrow> grows M K \<Longrightarrow> grows N K"
  unfolding grows_def by (metis)

lemma grows_None: "grows N M \<Longrightarrow> M p = None \<Longrightarrow> N p = None"
  unfolding grows_def by (metis node.exhaust option.exhaust option.distinct(1))

lemma grows_is_dir: "grows N M \<Longrightarrow> is_dir N p \<Longrightarrow> is_dir M p"
  by (auto simp: grows_def is_dir_def)

lemma mkdir_all_Cons_cases:
  obtains (pass) "is_dir N q" "mkdir_all D N (q # qs) = mkdir_all D N qs"
  | (make) "\<not> is_dir N q" "N q = None" "mkdir_all D N (q # qs) = mkdir_all D (N(q \<mapsto> Dir)) qs"
  | (fail) e where "\<not> is_dir N q" "mkdir_all D N (q # qs) = (Some e, N)"
proof (cases "is_dir N q")
  case True
  then show ?thesis by (simp add: pass)
next
  case nd: False
  show ?thesis
  proof (cases "N q = None")
    case False
    with nd show ?thesis by (simp add: fail)
  next
    case True
    show ?thesis
    proof (cases "D q")
      case None
      with nd True show ?thesis by (simp add: make)
    next
      case (Some f)
      with nd True show ?thesis by (cases f) (simp_all add: make fail)
    qed
  qed
qed

lemma grows_mkdir: "N q = None \<Longrightarrow> grows N (N(q \<mapsto> Dir))"
  by (auto simp: grows_def)

lemma mkdir_all_grows: "mkdir_all D N qs = (a, N') \<Longrightarrow> grows N N'"
proof (induction qs arbitrary: N)
  case Nil
  then show ?case by (simp add: grows_refl)
next
  case (Cons q qs)
  show ?case
  proof (cases rule: mkdir_all_Cons_cases [of N q D qs])
    case pass
    with Cons.prems have "mkdir_all D N qs = (a, N')" by simp
    then show ?thesis by (rule Cons.IH)
  next
    case make
    with Cons.prems have "mkdir_all D (N(q \<mapsto> Dir)) qs = (a, N')" by simp
    then have "grows (N(q \<mapsto> Dir)) N'" by (rule Cons.IH)
    with grows_mkdir [of N q, OF make(2)] show ?thesis by (rule grows_trans)
  next
    case (fail e)
    with Cons.prems show ?thesis by (simp add: grows_refl)
  qed
qed

lemma os_write_file_grows: "os_write_file D N p rst = (a, N') \<Longrightarrow> grows N N'"
  by (auto simp: os_write_file_def grows_def is_dir_def split: if_splits option.splits fault.splits)

lemma os_apply_grows: "os_apply D N x = (a, N') \<Longrightarrow> grows N N'"
  by (cases x) (auto simp: os_makedirs_def dest: mkdir_all_grows os_write_file_grows)

lemma exec_grows: "exec D N xs = (a, N') \<Longrightarrow> grows N N'"
proof (induction xs arbitrary: N)
  case Nil
  then show ?case by (simp add: grows_refl)
next
  case (Cons x xs)
  obtain b N1 where 1: "os_apply D N x = (b, N1)" by (cases "os_apply D N x")
  show ?case
  proof (cases b)
    case None
    with 1 Cons.prems have "exec D N1 xs = (a, N')" by simp
    then have "grows N1 N'" by (rule Cons.IH)
    with os_apply_grows [OF 1] show ?thesis by (rule grows_trans)
  next
    case (Some e)
    with 1 Cons.prems have "N' = N1" by simp
    with os_apply_grows [OF 1] show ?thesis by simp
  qed
qed

subsection \<open>What changes\<close>

lemma mkdir_all_changes:
  "mkdir_all D N qs = (a, N') \<Longrightarrow> N' p \<noteq> N p \<Longrightarrow> p \<in> set qs \<and> p \<noteq> [] \<and> N p = None \<and> N' p = Some Dir"
proof (induction qs arbitrary: N)
  case Nil
  then show ?case by simp
next
  case (Cons q qs)
  show ?case
  proof (cases rule: mkdir_all_Cons_cases [of N q D qs])
    case pass
    with Cons.prems have "mkdir_all D N qs = (a, N')" by simp
    from Cons.IH [OF this Cons.prems(2)] show ?thesis by simp
  next
    case make
    with Cons.prems have 2: "mkdir_all D (N(q \<mapsto> Dir)) qs = (a, N')" by simp
    from make(1) have qne: "q \<noteq> []" by (auto simp: is_dir_def)
    show ?thesis
    proof (cases "p = q")
      case True
      from mkdir_all_grows [OF 2] have "N' q = Some Dir" by (simp add: grows_def)
      with True make(2) qne show ?thesis by simp
    next
      case False
      with Cons.prems(2) have "N' p \<noteq> (N(q \<mapsto> Dir)) p" by simp
      from Cons.IH [OF 2 this] False show ?thesis by simp
    qed
  next
    case (fail e)
    with Cons.prems show ?thesis by simp
  qed
qed

lemma os_write_file_changes:
  "os_write_file D N q rst = (a, N') \<Longrightarrow> N' p \<noteq> N p \<Longrightarrow>
     p = q \<and> (\<exists>c. N' p = Some (File c)) \<and> (a = None \<longrightarrow> N' p = Some (File rst))"
  by (auto simp: os_write_file_def split: if_splits option.splits fault.splits)

lemma os_apply_changes:
  "os_apply D N x = (a, N') \<Longrightarrow> N' p \<noteq> N p \<Longrightarrow>
     (\<exists>c c'. x = WriteFile p c \<and> N' p = Some (File c'))
     \<or> (p \<noteq> [] \<and> N p = None \<and> N' p = Some Dir \<and> (\<exists>q. x = MkDirs q \<and> prefix p q))"
proof (cases x)
  case (MkDirs q)
  assume "os_apply D N x = (a, N')" "N' p \<noteq> N p"
  with MkDirs mkdir_all_changes [of D N "prefixes q" a N' p] show ?thesis
    by (auto simp: os_makedirs_def)
next
  case (WriteFile q c)
  assume "os_apply D N x = (a, N')" "N' p \<noteq> N p"
  with WriteFile os_write_file_changes [of D N q c a N' p] show ?thesis
    by auto
qed

lemma exec_changes:
  "exec D N xs = (a, N') \<Longrightarrow> N' p \<noteq> N p \<Longrightarrow>
     (\<exists>c c'. WriteFile p c \<in> set xs \<and> N' p = Some (File c')) \<or> (N p = None \<and> N' p = Some Dir \<and> p \<in> made xs)"
proof (induction xs arbitrary: N)
  case Nil
  then show ?case by simp
next
  case (Cons x xs)
  obtain b N1 where 1: "os_apply D N x = (b, N1)" by (cases "os_apply D N x")
  have step: "N1 p \<noteq> N p \<Longrightarrow> (\<exists>c c'. x = WriteFile p c \<and> N1 p = Some (File c')) \<or> (N p = None \<and> N1 p = Some Dir \<and> p \<in> made (x # xs))"
    using os_apply_changes [OF 1, of p] by (auto simp: made_def)
  show ?case
  proof (cases b)
    case None
    with 1 Cons.prems have 2: "exec D N1 xs = (a, N')" by simp
    show ?thesis
    proof (cases "N' p = N1 p")
      case True
      with Cons.prems step show ?thesis by auto
    next
      case False
      from Cons.IH [OF 2 False] grows_None [OF os_apply_grows [OF 1], of p]
      show ?thesis by (auto simp: made_def)
    qed
  next
    case (Some e)
    with 1 Cons.prems have "N' = N1" by simp
    with step Cons.prems show ?thesis by auto
  qed
qed

subsection \<open>What a run that succeeds leaves behind\<close>

lemma mkdir_all_ok: "mkdir_all D N qs = (None, N') \<Longrightarrow> q \<in> set qs \<Longrightarrow> is_dir N' q"
proof (induction qs arbitrary: N)
  case Nil
  then show ?case by simp
next
  case (Cons q' qs)
  show ?case
  proof (cases rule: mkdir_all_Cons_cases [of N q' D qs])
    case pass
    with Cons.prems have 2: "mkdir_all D N qs = (None, N')" by simp
    show ?thesis
    proof (cases "q = q'")
      case True
      with pass(1) mkdir_all_grows [OF 2] show ?thesis by (simp add: grows_is_dir)
    next
      case False
      with Cons.prems have "q \<in> set qs" by simp
      with 2 show ?thesis by (rule Cons.IH)
    qed
  next
    case make
    with Cons.prems have 2: "mkdir_all D (N(q' \<mapsto> Dir)) qs = (None, N')" by simp
    show ?thesis
    proof (cases "q = q'")
      case True
      have "is_dir (N(q' \<mapsto> Dir)) q'" by (simp add: is_dir_def)
      with mkdir_all_grows [OF 2] True show ?thesis by (simp add: grows_is_dir)
    next
      case False
      with Cons.prems have "q \<in> set qs" by simp
      with 2 show ?thesis by (rule Cons.IH)
    qed
  next
    case (fail e)
    with Cons.prems show ?thesis by simp
  qed
qed

lemma written_None_iff: "written xs p = None \<longleftrightarrow> (\<forall>c. WriteFile p c \<notin> set xs)"
  by (induction xs) (auto split: option.splits fsop.splits)

lemma written_Some_mem: "written xs p = Some c \<Longrightarrow> WriteFile p c \<in> set xs"
  by (induction xs) (auto split: option.splits fsop.splits if_splits)

lemma exec_made:
  "exec D N xs = (None, N') \<Longrightarrow> p \<in> made xs \<Longrightarrow> N' p = Some Dir"
proof (induction xs arbitrary: N)
  case Nil
  then show ?case by (simp add: made_def)
next
  case (Cons x xs)
  obtain b N1 where 1: "os_apply D N x = (b, N1)" by (cases "os_apply D N x")
  with Cons.prems have b: "b = None" and 2: "exec D N1 xs = (None, N')"
    by (auto split: option.splits)
  show ?case
  proof (cases "p \<in> made xs")
    case True
    with 2 show ?thesis by (rule Cons.IH)
  next
    case False
    with Cons.prems obtain q where q: "x = MkDirs q" "prefix p q" "p \<noteq> []"
      by (auto simp: made_def)
    with 1 b have "mkdir_all D N (prefixes q) = (None, N1)"
      by (simp add: os_makedirs_def)
    from mkdir_all_ok [OF this, of p] q have "is_dir N1 p" by simp
    with exec_grows [OF 2] have "is_dir N' p" by (rule grows_is_dir)
    with q show ?thesis by (simp add: is_dir_def)
  qed
qed

lemma exec_written:
  "exec D N xs = (None, N') \<Longrightarrow> written xs p = Some c \<Longrightarrow> N' p = Some (File c)"
proof (induction xs arbitrary: N)
  case Nil
  then show ?case by simp
next
  case (Cons x xs)
  obtain b N1 where 1: "os_apply D N x = (b, N1)" by (cases "os_apply D N x")
  with Cons.prems have b: "b = None" and 2: "exec D N1 xs = (None, N')"
    by (auto split: option.splits)
  show ?case
  proof (cases "written xs p")
    case (Some c')
    with Cons.prems have "c' = c" by simp
    with Some 2 show ?thesis by (simp add: Cons.IH)
  next
    case None
    with Cons.prems have x: "x = WriteFile p c"
      by (auto split: fsop.splits if_splits)
    with 1 b have N1: "N1 p = Some (File c)"
      by (auto simp: os_write_file_def split: if_splits option.splits fault.splits)
    have "N' p = N1 p"
    proof (rule ccontr)
      assume "N' p \<noteq> N1 p"
      from exec_changes [OF 2 this] None N1 show False
        by (auto simp: written_None_iff)
    qed
    with N1 show ?thesis by simp
  qed
qed

lemma exec_after:
  assumes "exec D N xs = (None, N')"
  shows "N' = after xs N"
proof
  fix p
  show "N' p = after xs N p"
  proof (cases "written xs p")
    case (Some c)
    with exec_written [OF assms, of p c] show ?thesis by (simp add: after_def)
  next
    case None
    show ?thesis
    proof (cases "N p = None \<and> p \<in> made xs")
      case True
      with None exec_made [OF assms, of p] show ?thesis by (simp add: after_def)
    next
      case False
      have "N' p = N p"
      proof (rule ccontr)
        assume "N' p \<noteq> N p"
        from exec_changes [OF assms this] None False show False
          by (auto simp: written_None_iff)
      qed
      with None False show ?thesis by (simp add: after_def)
    qed
  qed
qed

lemma exec_dirs:
  assumes "exec D N xs = (None, N')"
  shows "N' p = Some Dir \<longleftrightarrow> N p = Some Dir \<or> p \<in> made xs"
proof
  assume d: "N' p = Some Dir"
  show "N p = Some Dir \<or> p \<in> made xs"
  proof (cases "N' p = N p")
    case True
    with d show ?thesis by simp
  next
    case False
    from exec_changes [OF assms False] d show ?thesis by auto
  qed
next
  assume "N p = Some Dir \<or> p \<in> made xs"
  then show "N' p = Some Dir"
  proof
    assume "N p = Some Dir"
    with exec_grows [OF assms] show ?thesis by (simp add: grows_def)
  next
    assume "p \<in> made xs"
    with assms show ?thesis by (rule exec_made)
  qed
qed

lemma child_dirs_after:
  assumes "exec D N xs = (None, N')"
  shows "child_dirs (dirs N') parent kind
           = child_dirs (dirs N) parent kind \<union> {p \<in> made xs. \<exists>x. p = parent @ [kind, x]}"
  using exec_dirs [OF assms] by (auto simp: child_dirs_def dirs_def)

lemma made_simps:
  "p \<in> made [] \<longleftrightarrow> False"
  "p \<in> made (MkDirs q # xs) \<longleftrightarrow> (p \<noteq> [] \<and> prefix p q) \<or> p \<in> made xs"
  "p \<in> made (WriteFile q c # xs) \<longleftrightarrow> p \<in> made xs"
  by (auto simp: made_def)

subsection \<open>The same operations once more, and on another file system\<close>

lemma mkdir_all_dirs: "(\<And>q. q \<in> set qs \<Longrightarrow> is_dir M q) \<Longrightarrow> mkdir_all D M qs = (None, M)"
  by (induction qs) auto

lemma rewrite_written:
  "rewrite xs M p = (case written xs p of Some c \<Rightarrow> Some (File c) | None \<Rightarrow> M p)"
proof (induction xs arbitrary: M)
  case Nil
  show ?case by simp
next
  case (Cons x xs)
  show ?case
    by (cases x) (simp_all add: Cons.IH split: option.splits)
qed

lemma exec_again:
  "exec D N xs = (None, N') \<Longrightarrow> grows N' M \<Longrightarrow> exec D M xs = (None, rewrite xs M)"
proof (induction xs arbitrary: N M)
  case Nil
  then show ?case by simp
next
  case (Cons x xs)
  obtain b N1 where 1: "os_apply D N x = (b, N1)" by (cases "os_apply D N x")
  with Cons.prems have b: "b = None" and 2: "exec D N1 xs = (None, N')"
    by (auto split: option.splits)
  have N1M: "grows N1 M"
    using exec_grows [OF 2] Cons.prems(2) by (rule grows_trans)
  show ?case
  proof (cases x)
    case (MkDirs q)
    with 1 b have "mkdir_all D N (prefixes q) = (None, N1)"
      by (simp add: os_makedirs_def)
    then have "is_dir N1 p" if "p \<in> set (prefixes q)" for p
      using that by (rule mkdir_all_ok)
    then have "is_dir M p" if "p \<in> set (prefixes q)" for p
      using that N1M grows_is_dir by blast
    then have "mkdir_all D M (prefixes q) = (None, M)"
      by (rule mkdir_all_dirs)
    with MkDirs Cons.IH [OF 2 Cons.prems(2)] show ?thesis
      by (simp add: os_makedirs_def)
  next
    case (WriteFile p c)
    with 1 b have w: "is_dir N (butlast p)" "\<not> is_dir N p" "D p = None" "N1 = N(p \<mapsto> File c)"
      by (auto simp: os_write_file_def split: if_splits option.splits fault.splits)
    from w(2) have pne: "p \<noteq> []" by (auto simp: is_dir_def)
    then have "butlast p \<noteq> p"
      by (metis append_butlast_last_id append_self_conv not_Cons_self2)
    with w(1,4) have "is_dir N1 (butlast p)" by (auto simp: is_dir_def)
    with N1M have Mb: "is_dir M (butlast p)" by (rule grows_is_dir)
    from w(4) N1M obtain c' where Mp: "M p = Some (File c')"
      unfolding grows_def by (metis fun_upd_same)
    with pne have "\<not> is_dir M p" by (simp add: is_dir_def)
    with Mb w(3) have 3: "os_write_file D M p c = (None, M(p \<mapsto> File c))"
      by (simp add: os_write_file_def)
    have "grows N' (M(p \<mapsto> File c))"
      using Cons.prems(2) Mp unfolding grows_def by (metis fun_upd_apply node.distinct(1) option.inject)
    then have 4: "exec D (M(p \<mapsto> File c)) xs = (None, rewrite xs (M(p \<mapsto> File c)))"
      by (rule Cons.IH [OF 2])
    have "exec D M (x # xs) = exec D (M(p \<mapsto> File c)) xs"
      using 3 WriteFile by simp
    with 4 WriteFile show ?thesis by simp
  qed
qed

lemma exec_idempotent:
  assumes "exec D N xs = (None, N')"
  shows "exec D N' xs = (None, N')"
proof -
  have "rewrite xs N' = N'"
  proof
    fix p
    show "rewrite xs N' p = N' p"
      using exec_written [OF assms, of p]
      by (auto simp: rewrite_written split: option.splits)
  qed
  with exec_again [OF assms grows_refl] show ?thesis by simp
qed

lemma exec_same_ops:
  assumes "exec D1 N1 xs = (None, N1')" and "exec D2 N2 xs = (None, N2')"
  shows "N1' p = N2' p \<or> (N1' p = N1 p \<and> N2' p = N2 p)"
proof (cases "written xs p")
  case (Some c)
  with exec_written [OF assms(1), of p c] exec_written [OF assms(2), of p c] show ?thesis by simp
next
  case None
  show ?thesis
  proof (cases "p \<in> made xs")
    case True
    with exec_made [OF assms(1), of p] exec_made [OF assms(2), of p] show ?thesis by simp
  next
    case False
    have "N1' p = N1 p"
    proof (rule ccontr)
      assume "N1' p \<noteq> N1 p"
      from exec_changes [OF assms(1) this] None False show False
        by (auto simp: written_None_iff)
    qed
    moreover have "N2' p = N2 p"
    proof (rule ccontr)
      assume "N2' p \<noteq> N2 p"
      from exec_changes [OF assms(2) this] None False show False
        by (auto simp: written_None_iff)
    qed
    ultimately show ?thesis by simp
  qed
qed

section \<open>The decimal text of an int\<close>

lemma digit_inj: "a < 10 \<Longrightarrow> b < 10 \<Longrightarrow> ''0123456789'' ! a = ''0123456789'' ! b \<Longrightarrow> a = b"
proof -
  assume a: "a < 10" and b: "b < 10" and e: "''0123456789'' ! a = ''0123456789'' ! b"
  have d: "distinct ''0123456789''" by simp
  from a b have "a < length ''0123456789''" "b < length ''0123456789''" by simp_all
  with d e show "a = b" by (simp only: nth_eq_iff_index_eq)
qed

lemma digits_nonempty: "digits n \<noteq> []"
  by (subst digits.simps) simp

lemma digits_length_1: "length (digits n) = 1 \<longleftrightarrow> n < 10"
proof (cases "n < 10")
  case True
  then show ?thesis by (subst digits.simps) simp
next
  case False
  have "digits (n div 10) \<noteq> []" by (rule digits_nonempty)
  then have "length (digits (n div 10)) \<noteq> 0" by simp
  with False show ?thesis by (subst digits.simps) simp
qed

lemma digits_inj: "digits n = digits m \<Longrightarrow> n = m"
proof (induction n arbitrary: m rule: digits.induct)
  case (1 n)
  show ?case
  proof (cases "n < 10")
    case True
    with digits_length_1 [of n] "1.prems" digits_length_1 [of m] have m: "m < 10" by simp
    from True m "1.prems" have "''0123456789'' ! n = ''0123456789'' ! m"
      by (simp add: digits.simps [of n] digits.simps [of m])
    with True m show ?thesis by (rule digit_inj)
  next
    case False
    with digits_length_1 [of n] "1.prems" digits_length_1 [of m] have m: "\<not> m < 10" by simp
    from False m "1.prems" have e: "digits (n div 10) = digits (m div 10)"
      and l: "''0123456789'' ! (n mod 10) = ''0123456789'' ! (m mod 10)"
      by (simp_all add: digits.simps [of n] digits.simps [of m])
    from "1.IH" [OF False e] have "n div 10 = m div 10" .
    moreover from l have "n mod 10 = m mod 10" by (intro digit_inj) simp_all
    ultimately show ?thesis by (metis div_mult_mod_eq)
  qed
qed

lemma digits_no_minus: "hd (digits n) \<noteq> CHR ''-''"
proof (induction n rule: digits.induct)
  case (1 n)
  show ?case
  proof (cases "n < 10")
    case True
    then have "n \<in> {0,1,2,3,4,5,6,7,8,9}" by auto
    then show ?thesis by (subst digits.simps) auto
  next
    case False
    with "1.IH" digits_nonempty [of "n div 10"] show ?thesis
      by (subst digits.simps) simp
  qed
qed

lemma str_int_inj [simp]: "str_int i = str_int j \<longleftrightarrow> i = j"
proof
  assume e: "str_int i = str_int j"
  show "i = j"
  proof (cases "i < 0")
    case True
    show ?thesis
    proof (cases "j < 0")
      case j: True
      with True e have "digits (nat (- i)) = digits (nat (- j))" by (simp add: str_int_def)
      then have "nat (- i) = nat (- j)" by (rule digits_inj)
      with True j show ?thesis by simp
    next
      case False
      with True e have "digits (nat j) = CHR ''-'' # digits (nat (- i))" by (simp add: str_int_def)
      with digits_no_minus [of "nat j"] show ?thesis by simp
    qed
  next
    case False
    show ?thesis
    proof (cases "j < 0")
      case True
      with False e have "digits (nat i) = CHR ''-'' # digits (nat (- j))" by (simp add: str_int_def)
      with digits_no_minus [of "nat i"] show ?thesis by simp
    next
      case j: False
      with False e have "digits (nat i) = digits (nat j)" by (simp add: str_int_def)
      then have "nat i = nat j" by (rule digits_inj)
      with False j show ?thesis by simp
    qed
  qed
qed simp

section \<open>The operations of a plan\<close>

lemma sql_distinct:
  "sql_uezd \<noteq> sql_gubernia" "sql_locality \<noteq> sql_gubernia" "sql_church \<noteq> sql_gubernia"
  "sql_locality \<noteq> sql_uezd" "sql_church \<noteq> sql_uezd" "sql_church \<noteq> sql_locality"
  by (simp_all add: sql_gubernia_def sql_uezd_def sql_locality_def sql_church_def)

lemma gubernias_of_eq: "gubernias_of d = cfp_gubernia d"
  by (simp add: gubernias_of_def run_select_def)

lemma uezds_of_eq: "uezds_of d g_id = children_of (cfp_uezd d) [g_id]"
  by (simp add: uezds_of_def run_select_def sql_distinct)

lemma localities_of_eq: "localities_of d u_id = children_of (cfp_locality d) [u_id]"
  by (simp add: localities_of_def run_select_def sql_distinct)

lemma churches_of_eq: "churches_of d l_id = children_of (cfp_church d) [l_id]"
  by (simp add: churches_of_def run_select_def sql_distinct)

lemma children_of_distinct:
  "distinct (map fst rows) \<Longrightarrow> distinct (map fst (children_of rows params))"
proof -
  assume d: "distinct (map fst rows)"
  have "map fst (children_of rows params) = map fst (filter (\<lambda>(i, p, n). [p] = params) rows)"
    by (simp add: children_of_def case_prod_beta)
  with d show ?thesis by (simp add: distinct_map_filter)
qed

lemma churches_plan_writes:
  "WriteFile p c \<in> set (churches_plan d pdir l_id l_name) \<longleftrightarrow>
     p = pdir @ [''index.rst'']
     \<and> c = tree_templ (PyStr l_name) (concat (map church_link (churches_of d l_id)))"
  by (auto simp: churches_plan_def)

lemma churches_plan_mkdirs:
  "MkDirs q \<in> set (churches_plan d pdir l_id l_name) \<longleftrightarrow>
     (\<exists>(ch_id, ch_name) \<in> set (churches_of d l_id). q = pdir @ [''church'', str_int ch_id])"
  by (fastforce simp: churches_plan_def)

lemma localities_plan_writes:
  "WriteFile p c \<in> set (localities_plan d pdir u_id u_name) \<longleftrightarrow>
     (p = pdir @ [''index.rst'']
      \<and> c = tree_templ (PyStr u_name) (concat (map locality_link (localities_of d u_id))))
     \<or> (\<exists>(l_id, l_name) \<in> set (localities_of d u_id).
           WriteFile p c \<in> set (churches_plan d (pdir @ [''locality'', str_int l_id]) l_id l_name))"
  by (fastforce simp: localities_plan_def)

lemma localities_plan_mkdirs:
  "MkDirs q \<in> set (localities_plan d pdir u_id u_name) \<longleftrightarrow>
     (\<exists>(l_id, l_name) \<in> set (localities_of d u_id).
        q = pdir @ [''locality'', str_int l_id]
        \<or> MkDirs q \<in> set (churches_plan d (pdir @ [''locality'', str_int l_id]) l_id l_name))"
  by (fastforce simp: localities_plan_def)

lemma uezds_plan_writes:
  "WriteFile p c \<in> set (uezds_plan d pdir g_id g_name) \<longleftrightarrow>
     (p = pdir @ [''index.rst'']
      \<and> c = tree_templ (PyStr g_name) (concat (map uezd_link (uezds_of d g_id))))
     \<or> (\<exists>(u_id, u_name) \<in> set (uezds_of d g_id).
           WriteFile p c \<in> set (localities_plan d (pdir @ [''uezd'', str_int u_id]) u_id u_name))"
  by (fastforce simp: uezds_plan_def)

lemma uezds_plan_mkdirs:
  "MkDirs q \<in> set (uezds_plan d pdir g_id g_name) \<longleftrightarrow>
     (\<exists>(u_id, u_name) \<in> set (uezds_of d g_id).
        q = pdir @ [''uezd'', str_int u_id]
        \<or> MkDirs q \<in> set (localities_plan d (pdir @ [''uezd'', str_int u_id]) u_id u_name))"
  by (fastforce simp: uezds_plan_def)

lemma generate_plan_writes:
  "WriteFile p c \<in> set (generate_plan d r) \<longleftrightarrow>
     (p = r @ [''gubernia'', ''index.rst'']
      \<and> c = tree_templ PyNone (concat (map gubernia_link (gubernias_of d))))
     \<or> (\<exists>(g_id, g_name) \<in> set (gubernias_of d).
           WriteFile p c \<in> set (uezds_plan d (r @ [''gubernia'', str_int g_id]) g_id g_name))"
  by (fastforce simp: generate_plan_def gubernias_plan_def)

lemma generate_plan_mkdirs:
  "MkDirs q \<in> set (generate_plan d r) \<longleftrightarrow>
     q = r
     \<or> (\<exists>(g_id, g_name) \<in> set (gubernias_of d).
           q = r @ [''gubernia'', str_int g_id]
           \<or> MkDirs q \<in> set (uezds_plan d (r @ [''gubernia'', str_int g_id]) g_id g_name))"
  by (fastforce simp: generate_plan_def gubernias_plan_def)

lemma plans_agree:
  assumes "gubernias_of d1 = gubernias_of d2" and "\<forall>g_id. uezds_of d1 g_id = uezds_of d2 g_id"
    and "\<forall>u_id. localities_of d1 u_id = localities_of d2 u_id"
    and "\<forall>l_id. churches_of d1 l_id = churches_of d2 l_id"
  shows "generate_plan d1 r = generate_plan d2 r"
proof -
  have c: "churches_plan d1 pdir l_id l_name = churches_plan d2 pdir l_id l_name" for pdir l_id l_name
    using assms(4) by (simp add: churches_plan_def)
  have l: "localities_plan d1 pdir u_id u_name = localities_plan d2 pdir u_id u_name" for pdir u_id u_name
    using assms(3) by (simp add: localities_plan_def c)
  have u: "uezds_plan d1 pdir g_id g_name = uezds_plan d2 pdir g_id g_name" for pdir g_id g_name
    using assms(2) by (simp add: uezds_plan_def l)
  show ?thesis
    using assms(1) by (simp add: generate_plan_def gubernias_plan_def u)
qed

subsection \<open>The index documents\<close>

lemma final_file_in_plan:
  assumes "exec D N xs = (None, N')" and "WriteFile p c0 \<in> set xs"
  shows "\<exists>c. WriteFile p c \<in> set xs \<and> N' p = Some (File c)"
proof -
  from assms(2) obtain c where c: "written xs p = Some c"
    by (cases "written xs p") (auto simp: written_None_iff)
  from written_Some_mem [OF c] exec_written [OF assms(1) c] show ?thesis by blast
qed

lemma gubernia_index_in_plan:
  assumes "(g_id, g_name) \<in> set (gubernias_of d)"
  shows "WriteFile (r @ [''gubernia'', str_int g_id, ''index.rst''])
           (tree_templ (PyStr g_name) (concat (map uezd_link (uezds_of d g_id))))
         \<in> set (generate_plan d r)"
  using assms by (auto simp: generate_plan_writes uezds_plan_writes)

lemma gubernia_index_content:
  assumes "WriteFile (r @ [''gubernia'', str_int g_id, ''index.rst'']) c \<in> set (generate_plan d r)"
  shows "\<exists>g_name. (g_id, g_name) \<in> set (gubernias_of d)
           \<and> c = tree_templ (PyStr g_name) (concat (map uezd_link (uezds_of d g_id)))"
  using assms
  by (auto simp: generate_plan_writes uezds_plan_writes localities_plan_writes churches_plan_writes)

lemma uezd_index_in_plan:
  assumes "(g_id, g_name) \<in> set (gubernias_of d)" and "(u_id, u_name) \<in> set (uezds_of d g_id)"
  shows "WriteFile (r @ [''gubernia'', str_int g_id, ''uezd'', str_int u_id, ''index.rst''])
           (tree_templ (PyStr u_name) (concat (map locality_link (localities_of d u_id))))
         \<in> set (generate_plan d r)"
  using assms by (fastforce simp: generate_plan_writes uezds_plan_writes localities_plan_writes)

lemma uezd_index_content:
  assumes "WriteFile (r @ [''gubernia'', str_int g_id, ''uezd'', str_int u_id, ''index.rst'']) c \<in> set (generate_plan d r)"
  shows "\<exists>g_name u_name. (g_id, g_name) \<in> set (gubernias_of d) \<and> (u_id, u_name) \<in> set (uezds_of d g_id)
           \<and> c = tree_templ (PyStr u_name) (concat (map locality_link (localities_of d u_id)))"
  using assms
  by (auto simp: generate_plan_writes uezds_plan_writes localities_plan_writes churches_plan_writes)

lemma locality_index_in_plan:
  assumes "(g_id, g_name) \<in> set (gubernias_of d)" and "(u_id, u_name) \<in> set (uezds_of d g_id)"
    and "(l_id, l_name) \<in> set (localities_of d u_id)"
  shows "WriteFile (r @ [''gubernia'', str_int g_id, ''uezd'', str_int u_id, ''locality'', str_int l_id, ''index.rst''])
           (tree_templ (PyStr l_name) (concat (map church_link (churches_of d l_id))))
         \<in> set (generate_plan d r)"
  using assms by (fastforce simp: generate_plan_writes uezds_plan_writes localities_plan_writes churches_plan_writes)

lemma locality_index_content:
  assumes "WriteFile (r @ [''gubernia'', str_int g_id, ''uezd'', str_int u_id, ''locality'', str_int l_id, ''index.rst'']) c \<in> set (generate_plan d r)"
  shows "\<exists>g_name u_name l_name. (g_id, g_name) \<in> set (gubernias_of d) \<and> (u_id, u_name) \<in> set (uezds_of d g_id)
           \<and> (l_id, l_name) \<in> set (localities_of d u_id)
           \<and> c = tree_templ (PyStr l_name) (concat (map church_link (churches_of d l_id)))"
  using assms
  by (auto simp: generate_plan_writes uezds_plan_writes localities_plan_writes churches_plan_writes)

lemma root_index_content:
  assumes "WriteFile (r @ [''gubernia'', ''index.rst'']) c \<in> set (generate_plan d r)"
  shows "c = tree_templ PyNone (concat (map gubernia_link (gubernias_of d)))"
  using assms
  by (auto simp: generate_plan_writes uezds_plan_writes localities_plan_writes churches_plan_writes)

lemma link_texts:
  "gubernia_link = (\<lambda>(g_id, g_name). ''   '' @ str_int g_id @ ''/index\<newline>'')"
  "uezd_link = (\<lambda>(u_id, u_name). ''   uezd/'' @ str_int u_id @ ''/index\<newline>'')"
  "locality_link = (\<lambda>(l_id, l_name). ''   '' @ ''uezd'' @ ''/'' @ str_int l_id @ ''/index\<newline>'')"
  "church_link = (\<lambda>(ch_id, ch_name). ''   '' @ ''uezd'' @ ''/'' @ str_int ch_id @ ''/index\<newline>'')"
  by (simp_all add: gubernia_link_def uezd_link_def locality_link_def church_link_def format3_def)

subsection \<open>The directories\<close>

lemma prefix_append_self [simp]: "prefix (r @ s) r \<longleftrightarrow> s = []"
  by (metis append.right_neutral prefix_order.antisym prefixI same_prefix_nil)

lemma child_count:
  assumes "distinct (map fst rows)"
  shows "card ((\<lambda>row. P @ [kind, str_int (fst row)]) ` set rows) = length rows"
proof -
  have "(\<lambda>row. P @ [kind, str_int (fst row)]) ` set rows = (\<lambda>i. P @ [kind, str_int i]) ` set (map fst rows)"
    by (simp add: image_image)
  moreover have "inj (\<lambda>i. P @ [kind, str_int i])"
    by (simp add: inj_def)
  ultimately have "card ((\<lambda>row. P @ [kind, str_int (fst row)]) ` set rows) = card (set (map fst rows))"
    by (simp add: card_image inj_on_def)
  with assms distinct_card [of "map fst rows"] show ?thesis by simp
qed

lemma row_dirs_image: "row_dirs parent kind rows = (\<lambda>row. parent @ [kind, str_int (fst row)]) ` set rows"
  by (simp add: row_dirs_def case_prod_beta)

lemma card_row_dirs:
  "distinct (map fst rows) \<Longrightarrow> card (row_dirs parent kind rows) = length rows"
  by (simp add: row_dirs_image child_count)

lemma made_gubernias:
  "{p \<in> made (generate_plan d r). \<exists>x. p = r @ [''gubernia'', x]}
     = (\<lambda>row. r @ [''gubernia'', str_int (fst row)]) ` set (gubernias_of d)"
proof (intro set_eqI iffI)
  fix p assume "p \<in> {p \<in> made (generate_plan d r). \<exists>x. p = r @ [''gubernia'', x]}"
  then obtain x q where p: "p = r @ [''gubernia'', x]" and q: "MkDirs q \<in> set (generate_plan d r)" "prefix p q"
    by (auto simp: made_def)
  from q p show "p \<in> (\<lambda>row. r @ [''gubernia'', str_int (fst row)]) ` set (gubernias_of d)"
    by (auto simp: generate_plan_mkdirs uezds_plan_mkdirs localities_plan_mkdirs churches_plan_mkdirs image_iff) force+
next
  fix p assume "p \<in> (\<lambda>row. r @ [''gubernia'', str_int (fst row)]) ` set (gubernias_of d)"
  then obtain g_id g_name where g: "(g_id, g_name) \<in> set (gubernias_of d)" and p: "p = r @ [''gubernia'', str_int g_id]"
    by auto
  from g have "MkDirs p \<in> set (generate_plan d r)"
    unfolding p generate_plan_mkdirs by blast
  then have "p \<in> made (generate_plan d r)"
    using p by (auto simp: made_def)
  with p show "p \<in> {p \<in> made (generate_plan d r). \<exists>x. p = r @ [''gubernia'', x]}" by simp
qed

lemma generate_plan_mkdirs_cases:
  assumes "MkDirs q \<in> set (generate_plan d r)"
  obtains (root) "q = r"
  | (gubernia) g_id g_name where
      "(g_id, g_name) \<in> set (gubernias_of d)"
      "q = r @ [''gubernia'', str_int g_id]"
  | (uezd) g_id g_name u_id u_name where
      "(g_id, g_name) \<in> set (gubernias_of d)" "(u_id, u_name) \<in> set (uezds_of d g_id)"
      "q = r @ [''gubernia'', str_int g_id, ''uezd'', str_int u_id]"
  | (locality) g_id g_name u_id u_name l_id l_name where
      "(g_id, g_name) \<in> set (gubernias_of d)" "(u_id, u_name) \<in> set (uezds_of d g_id)"
      "(l_id, l_name) \<in> set (localities_of d u_id)"
      "q = r @ [''gubernia'', str_int g_id, ''uezd'', str_int u_id, ''locality'', str_int l_id]"
  | (church) g_id g_name u_id u_name l_id l_name ch_id ch_name where
      "(g_id, g_name) \<in> set (gubernias_of d)" "(u_id, u_name) \<in> set (uezds_of d g_id)"
      "(l_id, l_name) \<in> set (localities_of d u_id)" "(ch_id, ch_name) \<in> set (churches_of d l_id)"
      "q = r @ [''gubernia'', str_int g_id, ''uezd'', str_int u_id, ''locality'', str_int l_id,
                ''church'', str_int ch_id]"
  using assms
  by (auto simp: generate_plan_mkdirs uezds_plan_mkdirs localities_plan_mkdirs churches_plan_mkdirs)

lemma uezd_dir_in_plan:
  assumes "(g_id, g_name) \<in> set (gubernias_of d)" and "(u_id, u_name) \<in> set (uezds_of d g_id)"
  shows "MkDirs (r @ [''gubernia'', str_int g_id, ''uezd'', str_int u_id]) \<in> set (generate_plan d r)"
  using assms by (fastforce simp: generate_plan_mkdirs uezds_plan_mkdirs)

lemma locality_dir_in_plan:
  assumes "(g_id, g_name) \<in> set (gubernias_of d)" and "(u_id, u_name) \<in> set (uezds_of d g_id)"
    and "(l_id, l_name) \<in> set (localities_of d u_id)"
  shows "MkDirs (r @ [''gubernia'', str_int g_id, ''uezd'', str_int u_id, ''locality'', str_int l_id])
           \<in> set (generate_plan d r)"
  using assms by (fastforce simp: generate_plan_mkdirs uezds_plan_mkdirs localities_plan_mkdirs)

lemma church_dir_in_plan:
  assumes "(g_id, g_name) \<in> set (gubernias_of d)" and "(u_id, u_name) \<in> set (uezds_of d g_id)"
    and "(l_id, l_name) \<in> set (localities_of d u_id)" and "(ch_id, ch_name) \<in> set (churches_of d l_id)"
  shows "MkDirs (r @ [''gubernia'', str_int g_id, ''uezd'', str_int u_id, ''locality'', str_int l_id,
                      ''church'', str_int ch_id])
           \<in> set (generate_plan d r)"
  using assms
  by (fastforce simp: generate_plan_mkdirs uezds_plan_mkdirs localities_plan_mkdirs churches_plan_mkdirs)

lemma made_uezds:
  assumes "(g_id, g_name) \<in> set (gubernias_of d)"
  shows "{p \<in> made (generate_plan d r). \<exists>x. p = (r @ [''gubernia'', str_int g_id]) @ [''uezd'', x]}
     = (\<lambda>row. (r @ [''gubernia'', str_int g_id]) @ [''uezd'', str_int (fst row)]) ` set (uezds_of d g_id)"
proof (intro set_eqI iffI)
  fix p assume "p \<in> {p \<in> made (generate_plan d r). \<exists>x. p = (r @ [''gubernia'', str_int g_id]) @ [''uezd'', x]}"
  then obtain x q where p: "p = r @ [''gubernia'', str_int g_id, ''uezd'', x]"
    and q: "MkDirs q \<in> set (generate_plan d r)" "prefix p q"
    by (auto simp: made_def)
  have "\<exists>u_name u_id. (u_id, u_name) \<in> set (uezds_of d g_id) \<and> x = str_int u_id"
    using q(1)
  proof (cases rule: generate_plan_mkdirs_cases)
    case root
    with q(2) p show ?thesis by simp
  next
    case (gubernia g' gn')
    with q(2) p show ?thesis by simp
  next
    case (uezd g' gn' u' un')
    with q(2) p show ?thesis by auto
  next
    case (locality g' gn' u' un' l' ln')
    with q(2) p show ?thesis by auto
  next
    case (church g' gn' u' un' l' ln' c' cn')
    with q(2) p show ?thesis by auto
  qed
  with p show "p \<in> (\<lambda>row. (r @ [''gubernia'', str_int g_id]) @ [''uezd'', str_int (fst row)]) ` set (uezds_of d g_id)"
    by force
next
  fix p assume "p \<in> (\<lambda>row. (r @ [''gubernia'', str_int g_id]) @ [''uezd'', str_int (fst row)]) ` set (uezds_of d g_id)"
  then obtain u_id u_name where u: "(u_id, u_name) \<in> set (uezds_of d g_id)"
    and p: "p = r @ [''gubernia'', str_int g_id, ''uezd'', str_int u_id]"
    by auto
  from assms u have "MkDirs p \<in> set (generate_plan d r)"
    unfolding p by (rule uezd_dir_in_plan)
  then have "p \<in> made (generate_plan d r)"
    using p by (auto simp: made_def)
  with p show "p \<in> {p \<in> made (generate_plan d r). \<exists>x. p = (r @ [''gubernia'', str_int g_id]) @ [''uezd'', x]}" by simp
qed

lemma made_localities:
  assumes "(g_id, g_name) \<in> set (gubernias_of d)" and "(u_id, u_name) \<in> set (uezds_of d g_id)"
  shows "{p \<in> made (generate_plan d r).
            \<exists>x. p = (r @ [''gubernia'', str_int g_id, ''uezd'', str_int u_id]) @ [''locality'', x]}
     = (\<lambda>row. (r @ [''gubernia'', str_int g_id, ''uezd'', str_int u_id]) @ [''locality'', str_int (fst row)])
         ` set (localities_of d u_id)"
proof (intro set_eqI iffI)
  fix p assume "p \<in> {p \<in> made (generate_plan d r).
            \<exists>x. p = (r @ [''gubernia'', str_int g_id, ''uezd'', str_int u_id]) @ [''locality'', x]}"
  then obtain x q where p: "p = r @ [''gubernia'', str_int g_id, ''uezd'', str_int u_id, ''locality'', x]"
    and q: "MkDirs q \<in> set (generate_plan d r)" "prefix p q"
    by (auto simp: made_def)
  have "\<exists>l_name l_id. (l_id, l_name) \<in> set (localities_of d u_id) \<and> x = str_int l_id"
    using q(1)
  proof (cases rule: generate_plan_mkdirs_cases)
    case root
    with q(2) p show ?thesis by simp
  next
    case (gubernia g' gn')
    with q(2) p show ?thesis by simp
  next
    case (uezd g' gn' u' un')
    with q(2) p show ?thesis by simp
  next
    case (locality g' gn' u' un' l' ln')
    with q(2) p show ?thesis by auto
  next
    case (church g' gn' u' un' l' ln' c' cn')
    with q(2) p show ?thesis by auto
  qed
  with p show "p \<in> (\<lambda>row. (r @ [''gubernia'', str_int g_id, ''uezd'', str_int u_id]) @ [''locality'', str_int (fst row)])
         ` set (localities_of d u_id)"
    by force
next
  fix p assume "p \<in> (\<lambda>row. (r @ [''gubernia'', str_int g_id, ''uezd'', str_int u_id]) @ [''locality'', str_int (fst row)])
         ` set (localities_of d u_id)"
  then obtain l_id l_name where l: "(l_id, l_name) \<in> set (localities_of d u_id)"
    and p: "p = r @ [''gubernia'', str_int g_id, ''uezd'', str_int u_id, ''locality'', str_int l_id]"
    by auto
  from assms l have "MkDirs p \<in> set (generate_plan d r)"
    unfolding p by (rule locality_dir_in_plan)
  then have "p \<in> made (generate_plan d r)"
    using p by (auto simp: made_def)
  with p show "p \<in> {p \<in> made (generate_plan d r).
            \<exists>x. p = (r @ [''gubernia'', str_int g_id, ''uezd'', str_int u_id]) @ [''locality'', x]}" by simp
qed

lemma made_churches:
  assumes "(g_id, g_name) \<in> set (gubernias_of d)" and "(u_id, u_name) \<in> set (uezds_of d g_id)"
    and "(l_id, l_name) \<in> set (localities_of d u_id)"
  shows "{p \<in> made (generate_plan d r).
            \<exists>x. p = (r @ [''gubernia'', str_int g_id, ''uezd'', str_int u_id, ''locality'', str_int l_id]) @ [''church'', x]}
     = (\<lambda>row. (r @ [''gubernia'', str_int g_id, ''uezd'', str_int u_id, ''locality'', str_int l_id])
                @ [''church'', str_int (fst row)])
         ` set (churches_of d l_id)"
proof (intro set_eqI iffI)
  fix p assume "p \<in> {p \<in> made (generate_plan d r).
            \<exists>x. p = (r @ [''gubernia'', str_int g_id, ''uezd'', str_int u_id, ''locality'', str_int l_id]) @ [''church'', x]}"
  then obtain x q where p: "p = r @ [''gubernia'', str_int g_id, ''uezd'', str_int u_id, ''locality'', str_int l_id, ''church'', x]"
    and q: "MkDirs q \<in> set (generate_plan d r)" "prefix p q"
    by (auto simp: made_def)
  have "\<exists>ch_name ch_id. (ch_id, ch_name) \<in> set (churches_of d l_id) \<and> x = str_int ch_id"
    using q(1)
  proof (cases rule: generate_plan_mkdirs_cases)
    case root
    with q(2) p show ?thesis by simp
  next
    case (gubernia g' gn')
    with q(2) p show ?thesis by simp
  next
    case (uezd g' gn' u' un')
    with q(2) p show ?thesis by simp
  next
    case (locality g' gn' u' un' l' ln')
    with q(2) p show ?thesis by simp
  next
    case (church g' gn' u' un' l' ln' c' cn')
    with q(2) p show ?thesis by auto
  qed
  with p show "p \<in> (\<lambda>row. (r @ [''gubernia'', str_int g_id, ''uezd'', str_int u_id, ''locality'', str_int l_id])
                @ [''church'', str_int (fst row)])
         ` set (churches_of d l_id)"
    by force
next
  fix p assume "p \<in> (\<lambda>row. (r @ [''gubernia'', str_int g_id, ''uezd'', str_int u_id, ''locality'', str_int l_id])
                @ [''church'', str_int (fst row)])
         ` set (churches_of d l_id)"
  then obtain ch_id ch_name where c: "(ch_id, ch_name) \<in> set (churches_of d l_id)"
    and p: "p = r @ [''gubernia'', str_int g_id, ''uezd'', str_int u_id, ''locality'', str_int l_id, ''church'', str_int ch_id]"
    by auto
  from assms c have "MkDirs p \<in> set (generate_plan d r)"
    unfolding p by (rule church_dir_in_plan)
  then have "p \<in> made (generate_plan d r)"
    using p by (auto simp: made_def)
  with p show "p \<in> {p \<in> made (generate_plan d r).
            \<exists>x. p = (r @ [''gubernia'', str_int g_id, ''uezd'', str_int u_id, ''locality'', str_int l_id]) @ [''church'', x]}" by simp
qed

lemma created_children:
  assumes "child_dirs (dirs N') parent kind = child_dirs (dirs N) parent kind \<union> row_dirs parent kind rows"
  shows "child_dirs (created N N') parent kind = row_dirs parent kind (missing_rows N parent kind rows)"
proof -
  have "child_dirs (created N N') parent kind = child_dirs (dirs N') parent kind - dirs N"
    by (auto simp: child_dirs_def created_def)
  also have "\<dots> = row_dirs parent kind rows - dirs N"
    unfolding assms by (auto simp: child_dirs_def)
  also have "\<dots> = row_dirs parent kind (missing_rows N parent kind rows)"
    by (auto simp: row_dirs_def missing_rows_def dirs_def)
  finally show ?thesis .
qed

lemma card_created_children:
  assumes "child_dirs (dirs N') parent kind = child_dirs (dirs N) parent kind \<union> row_dirs parent kind rows"
    and "distinct (map fst rows)"
  shows "card (child_dirs (created N N') parent kind) = length (missing_rows N parent kind rows)"
proof -
  from assms(2) have "distinct (map fst (missing_rows N parent kind rows))"
    unfolding missing_rows_def by (rule distinct_map_filter)
  then have "card (row_dirs parent kind (missing_rows N parent kind rows))
               = length (missing_rows N parent kind rows)"
    by (rule card_row_dirs)
  with created_children [OF assms(1)] show ?thesis by simp
qed

lemma gubernia_dirs_after:
  assumes "exec D N (generate_plan d r) = (None, N')"
  shows "child_dirs (dirs N') r ''gubernia''
           = child_dirs (dirs N) r ''gubernia'' \<union> row_dirs r ''gubernia'' (gubernias_of d)"
  unfolding child_dirs_after [OF assms] row_dirs_image by (simp only: made_gubernias)

subsection \<open>Where a run changes the file system\<close>

lemma generate_plan_write_below:
  assumes "WriteFile p c \<in> set (generate_plan d r)"
  shows "prefix r p"
  using assms
  by (auto simp: generate_plan_writes uezds_plan_writes localities_plan_writes churches_plan_writes)

lemma generate_plan_mkdirs_below:
  assumes "MkDirs q \<in> set (generate_plan d r)"
  shows "prefix r q"
  using assms by (cases rule: generate_plan_mkdirs_cases) simp_all

lemma generate_changes:
  assumes "nodes (final (generate \<lparr>cur = d, root_dir = Abs r\<rparr> w)) p \<noteq> nodes w p"
  shows "prefix r p
         \<or> (strict_prefix p r \<and> nodes w p = None
            \<and> nodes (final (generate \<lparr>cur = d, root_dir = Abs r\<rparr> w)) p = Some Dir)"
proof -
  let ?N' = "nodes (final (generate \<lparr>cur = d, root_dir = Abs r\<rparr> w))"
  from generate_exec [of w d r] obtain a where e: "exec (deny w) (nodes w) (generate_plan d r) = (a, ?N')"
    by blast
  from exec_changes [OF e assms] show ?thesis
  proof (elim disjE exE conjE)
    fix c assume "WriteFile p c \<in> set (generate_plan d r)"
    then show ?thesis by (simp add: generate_plan_write_below)
  next
    assume mk: "nodes w p = None" "?N' p = Some Dir" "p \<in> made (generate_plan d r)"
    from mk(3) obtain q where q: "MkDirs q \<in> set (generate_plan d r)" "prefix p q"
      by (auto simp: made_def)
    from generate_plan_mkdirs_below [OF q(1)] q(2) have "prefix r p \<or> prefix p r"
      by (metis prefix_same_cases)
    with mk(1,2) show ?thesis by (auto simp: strict_prefix_def)
  qed
qed

section \<open>The statements of a run\<close>

lemma selects_Nil [simp]: "selects []"
  by (simp add: selects_def)

lemma selects_append [simp]: "selects (xs @ ys) \<longleftrightarrow> selects xs \<and> selects ys"
  by (auto simp: selects_def)

lemma reads_onlyI:
  assumes "\<And>w. issued (final (prog w)) = issued w"
  shows "reads_only prog"
  unfolding reads_only_def
proof
  fix w
  have "issued (final (prog w)) = issued w @ [] \<and> selects []"
    by (simp add: assms)
  then show "\<exists>stmts. issued (final (prog w)) = issued w @ stmts \<and> selects stmts" ..
qed

lemma reads_only_make_dirs: "reads_only (make_dirs self path)"
  by (rule reads_onlyI) (simp add: make_dirs_def py_print_def split: prod.splits option.splits)

lemma reads_only_gen_tree_index: "reads_only (gen_tree_index self path content)"
  by (rule reads_onlyI)
    (simp add: gen_tree_index_def file_write_def split: prod.splits option.splits)

lemma reads_only_and_then:
  assumes p: "reads_only p" and f: "\<And>v. reads_only (f v)"
  shows "reads_only (\<lambda>w. and_then (p w) f)"
  unfolding reads_only_def
proof
  fix w :: world
  from p obtain s1 where s1: "issued (final (p w)) = issued w @ s1" "selects s1"
    unfolding reads_only_def by blast
  show "\<exists>stmts. issued (final (and_then (p w) f)) = issued w @ stmts \<and> selects stmts"
  proof (cases "p w")
    case (Ret v w1)
    from f [of v] obtain s2 where s2: "issued (final (f v w1)) = issued w1 @ s2" "selects s2"
      unfolding reads_only_def by blast
    from Ret s1 s2 have "issued (final (and_then (p w) f)) = issued w @ (s1 @ s2) \<and> selects (s1 @ s2)"
      by simp
    then show ?thesis ..
  next
    case (Halt s w1)
    with s1 have "issued (final (and_then (p w) f)) = issued w @ s1 \<and> selects s1"
      by simp
    then show ?thesis ..
  qed
qed

lemma reads_only_foreach:
  assumes "\<And>x acc. reads_only (body x acc)"
  shows "reads_only (foreach xs body acc)"
proof (induction xs arbitrary: acc)
  case Nil
  show ?case by (rule reads_onlyI) simp
next
  case (Cons x xs)
  have "reads_only (\<lambda>w. and_then (body x acc w) (foreach xs body))"
    by (rule reads_only_and_then) (rule assms, rule Cons.IH)
  then show ?case by (simp add: reads_only_def)
qed

lemma reads_only_query:
  assumes "reads_only prog" and "sql \<in> {sql_gubernia, sql_uezd, sql_locality, sql_church}"
  shows "reads_only (\<lambda>w. prog (w\<lparr>issued := issued w @ [(sql, params)]\<rparr>))"
  unfolding reads_only_def
proof
  fix w :: world
  let ?w1 = "w\<lparr>issued := issued w @ [(sql, params)]\<rparr>"
  from assms(1) obtain s where s: "issued (final (prog ?w1)) = issued ?w1 @ s" "selects s"
    unfolding reads_only_def by blast
  from assms(2) have "selects [(sql, params)]" by (simp add: selects_def)
  with s have "issued (final (prog ?w1)) = issued w @ ((sql, params) # s) \<and> selects ((sql, params) # s)"
    using selects_append [of "[(sql, params)]" s] by simp
  then show "\<exists>stmts. issued (final (prog ?w1)) = issued w @ stmts \<and> selects stmts" ..
qed

lemma reads_only_Ret: "reads_only (Ret v)"
  by (rule reads_onlyI) simp

lemma reads_only_pre:
  assumes "reads_only prog" and "\<And>w. issued (g w) = issued w"
  shows "reads_only (\<lambda>w. prog (g w))"
  unfolding reads_only_def
proof
  fix w :: world
  from assms(1) obtain s where "issued (final (prog (g w))) = issued (g w) @ s" "selects s"
    unfolding reads_only_def by blast
  then have "issued (final (prog (g w))) = issued w @ s \<and> selects s"
    by (simp add: assms(2))
  then show "\<exists>stmts. issued (final (prog (g w))) = issued w @ stmts \<and> selects stmts" ..
qed

lemma reads_only_gen_churches: "reads_only (gen_churches self l_id l_name pdir)"
proof -
  let ?body = "\<lambda>(ch_id, ch_name) ch_list w.
                  and_then
                    (make_dirs self (pj (pj pdir (Rel [''church''])) (Rel [str_int ch_id])) w)
                    (\<lambda>u. Ret (ch_list @ format3 (''uezd/'' @ str_int ch_id @ ''/index\<newline>'')))"
  have body: "reads_only (?body x acc)" for x acc
  proof (cases x)
    case (Pair ch_id ch_name)
    have "reads_only (\<lambda>w. and_then
                    (make_dirs self (pj (pj pdir (Rel [''church''])) (Rel [str_int ch_id])) w)
                    (\<lambda>u. Ret (acc @ format3 (''uezd/'' @ str_int ch_id @ ''/index\<newline>''))))"
      by (intro reads_only_and_then reads_only_make_dirs reads_only_Ret)
    with Pair show ?thesis by simp
  qed
  have "reads_only (\<lambda>w. and_then (foreach (run_select (cur self) sql_church [l_id]) ?body [] w)
            (\<lambda>ch_list. gen_tree_index self pdir (tree_templ (PyStr l_name) ch_list)))"
    by (intro reads_only_and_then reads_only_foreach body reads_only_gen_tree_index)
  from reads_only_query [OF this, of sql_church "[l_id]"] show ?thesis
    by (simp add: reads_only_def gen_churches_def query_def)
qed

lemma reads_only_gen_localities: "reads_only (gen_localities self u_id u_name pdir)"
proof -
  let ?body = "\<lambda>(l_id, l_name) l_list w.
                  and_then
                    (make_dirs self (pj (pj pdir (Rel [''locality''])) (Rel [str_int l_id])) w)
                    (\<lambda>u w.
                       and_then
                         (gen_churches self l_id l_name
                            (pj (pj pdir (Rel [''locality''])) (Rel [str_int l_id])) w)
                         (\<lambda>u. Ret (l_list @ format3 (''uezd/'' @ str_int l_id @ ''/index\<newline>''))))"
  have body: "reads_only (?body x acc)" for x acc
  proof (cases x)
    case (Pair l_id l_name)
    have "reads_only (\<lambda>w. and_then
                    (make_dirs self (pj (pj pdir (Rel [''locality''])) (Rel [str_int l_id])) w)
                    (\<lambda>u w.
                       and_then
                         (gen_churches self l_id l_name
                            (pj (pj pdir (Rel [''locality''])) (Rel [str_int l_id])) w)
                         (\<lambda>u. Ret (acc @ format3 (''uezd/'' @ str_int l_id @ ''/index\<newline>'')))))"
      by (intro reads_only_and_then reads_only_make_dirs reads_only_gen_churches reads_only_Ret)
    with Pair show ?thesis by simp
  qed
  have "reads_only (\<lambda>w. and_then (foreach (run_select (cur self) sql_locality [u_id]) ?body [] w)
            (\<lambda>l_list. gen_tree_index self pdir (tree_templ (PyStr u_name) l_list)))"
    by (intro reads_only_and_then reads_only_foreach body reads_only_gen_tree_index)
  from reads_only_query [OF this, of sql_locality "[u_id]"] show ?thesis
    by (simp add: reads_only_def gen_localities_def query_def)
qed

lemma reads_only_gen_uezds: "reads_only (gen_uezds self g_id g_name pdir)"
proof -
  let ?body = "\<lambda>(u_id, u_name) u_list w.
                  and_then
                    (make_dirs self (pj (pj pdir (Rel [''uezd''])) (Rel [str_int u_id])) w)
                    (\<lambda>u w.
                       and_then
                         (gen_localities self u_id u_name
                            (pj (pj pdir (Rel [''uezd''])) (Rel [str_int u_id])) w)
                         (\<lambda>u. Ret (u_list @ format3 (''uezd/'' @ str_int u_id @ ''/index\<newline>''))))"
  have body: "reads_only (?body x acc)" for x acc
  proof (cases x)
    case (Pair u_id u_name)
    have "reads_only (\<lambda>w. and_then
                    (make_dirs self (pj (pj pdir (Rel [''uezd''])) (Rel [str_int u_id])) w)
                    (\<lambda>u w.
                       and_then
                         (gen_localities self u_id u_name
                            (pj (pj pdir (Rel [''uezd''])) (Rel [str_int u_id])) w)
                         (\<lambda>u. Ret (acc @ format3 (''uezd/'' @ str_int u_id @ ''/index\<newline>'')))))"
      by (intro reads_only_and_then reads_only_make_dirs reads_only_gen_localities reads_only_Ret)
    with Pair show ?thesis by simp
  qed
  have "reads_only (\<lambda>w. and_then (foreach (run_select (cur self) sql_uezd [g_id]) ?body [] w)
            (\<lambda>u_list. gen_tree_index self pdir (tree_templ (PyStr g_name) u_list)))"
    by (intro reads_only_and_then reads_only_foreach body reads_only_gen_tree_index)
  from reads_only_query [OF this, of sql_uezd "[g_id]"] show ?thesis
    by (simp add: reads_only_def gen_uezds_def query_def)
qed

lemma reads_only_gen_gubernias: "reads_only (gen_gubernias self rdir)"
proof -
  let ?body = "\<lambda>(g_id, g_name) g_list w.
                  and_then
                    (make_dirs self (pj (pj rdir (Rel [''gubernia''])) (Rel [str_int g_id]))
                       (py_print (g_name @ CHR 0x09 # ''loading...'') '' '' (w\<lparr>current_gub := g_name\<rparr>)))
                    (\<lambda>u w.
                       and_then
                         (gen_uezds self g_id g_name
                            (pj (pj rdir (Rel [''gubernia''])) (Rel [str_int g_id])) w)
                         (\<lambda>u w. Ret (g_list @ format3 (str_int g_id) @ ''/index'' @ ''\<newline>'')
                                  (py_print (CHR 0x0D # current_gub w @ CHR 0x09 # ''Done!     '') ''\<newline>'' w)))"
  have body: "reads_only (?body x acc)" for x acc
  proof (cases x)
    case (Pair g_id g_name)
    let ?k = "\<lambda>u w. and_then
                         (gen_uezds self g_id g_name
                            (pj (pj rdir (Rel [''gubernia''])) (Rel [str_int g_id])) w)
                         (\<lambda>u w. Ret (acc @ format3 (str_int g_id) @ ''/index'' @ ''\<newline>'')
                                  (py_print (CHR 0x0D # current_gub w @ CHR 0x09 # ''Done!     '') ''\<newline>'' w))"
    have fin: "reads_only (\<lambda>w. Ret (acc @ format3 (str_int g_id) @ ''/index'' @ ''\<newline>'')
                                  (py_print (CHR 0x0D # current_gub w @ CHR 0x09 # ''Done!     '') ''\<newline>'' w))"
      by (rule reads_onlyI) (simp add: py_print_def)
    have "reads_only (\<lambda>w. and_then
                    (make_dirs self (pj (pj rdir (Rel [''gubernia''])) (Rel [str_int g_id])) w) ?k)"
      by (intro reads_only_and_then reads_only_make_dirs reads_only_gen_uezds fin)
    from reads_only_pre [OF this, of "\<lambda>w. py_print (g_name @ CHR 0x09 # ''loading...'') '' '' (w\<lparr>current_gub := g_name\<rparr>)"]
    have "reads_only (\<lambda>w. and_then
                    (make_dirs self (pj (pj rdir (Rel [''gubernia''])) (Rel [str_int g_id]))
                       (py_print (g_name @ CHR 0x09 # ''loading...'') '' '' (w\<lparr>current_gub := g_name\<rparr>))) ?k)"
      by (simp add: py_print_def)
    with Pair show ?thesis by simp
  qed
  have "reads_only (\<lambda>w. and_then (foreach (run_select (cur self) sql_gubernia []) ?body [] w)
            (\<lambda>g_list. gen_tree_index self (Rel [''gubernia'']) (tree_templ PyNone g_list)))"
    by (intro reads_only_and_then reads_only_foreach body reads_only_gen_tree_index)
  from reads_only_query [OF this, of sql_gubernia "[]"] show ?thesis
    by (simp add: reads_only_def gen_gubernias_def query_def)
qed

lemma reads_only_generate: "reads_only (generate self)"
proof -
  have "reads_only (\<lambda>w. and_then (make_dirs self (root_dir self) w) (\<lambda>u. gen_gubernias self (root_dir self)))"
    by (intro reads_only_and_then reads_only_make_dirs reads_only_gen_gubernias)
  then show ?thesis by (simp add: reads_only_def generate_def)
qed

lemma select_texts:
  "take 7 sql_gubernia = ''SELECT ''" "take 7 sql_uezd = ''SELECT ''"
  "take 7 sql_locality = ''SELECT ''" "take 7 sql_church = ''SELECT ''"
  by (simp_all add: sql_gubernia_def sql_uezd_def sql_locality_def sql_church_def)

section \<open>The example runs\<close>

lemmas run_defs =
  generate_def gen_gubernias_def gen_uezds_def gen_localities_def gen_churches_def
  gen_tree_index_def make_dirs_def file_write_def query_def run_select_def children_of_def
  sql_gubernia_def sql_uezd_def sql_locality_def sql_church_def
  os_makedirs_def os_write_file_def is_dir_def resolve_def py_print_def
  str_int_def digits.simps format3_def

lemma ex_returned: "returned (generate \<lparr>cur = ex_db, root_dir = Abs ex_root\<rparr> ex_world)"
  by (simp add: ex_db_def ex_world_def ex_root_def run_defs)

lemma ex_returned2: "returned (generate \<lparr>cur = ex_db, root_dir = Abs ex_root\<rparr> ex_world2)"
  by (simp add: ex_db_def ex_world2_def ex_root_def run_defs)


lemma two_returned: "returned (generate \<lparr>cur = two_db, root_dir = Abs ex_root\<rparr> ex_world)"
  by (simp add: two_db_def ex_world_def ex_root_def run_defs)

lemma dup_returned: "returned (generate \<lparr>cur = dup_db, root_dir = Abs ex_root\<rparr> ex_world)"
  by (simp add: dup_db_def ex_world_def ex_root_def run_defs)


lemma ex_plan:
  "generate_plan ex_db r =
     [MkDirs r,
      MkDirs (r @ [''gubernia'', ''1'']),
      MkDirs (r @ [''gubernia'', ''1'', ''uezd'', ''10'']),
      MkDirs (r @ [''gubernia'', ''1'', ''uezd'', ''10'', ''locality'', ''7'']),
      MkDirs (r @ [''gubernia'', ''1'', ''uezd'', ''10'', ''locality'', ''7'', ''church'', ''3'']),
      WriteFile (r @ [''gubernia'', ''1'', ''uezd'', ''10'', ''locality'', ''7'', ''index.rst''])
        (tree_templ (PyStr ''Selo'') ''   uezd/3/index\<newline>''),
      WriteFile (r @ [''gubernia'', ''1'', ''uezd'', ''10'', ''index.rst''])
        (tree_templ (PyStr ''Rayon'') ''   uezd/7/index\<newline>''),
      WriteFile (r @ [''gubernia'', ''1'', ''index.rst''])
        (tree_templ (PyStr ''Oblast'') ''   uezd/10/index\<newline>''),
      WriteFile (r @ [''gubernia'', ''index.rst'']) (tree_templ PyNone ''   1/index\<newline>'')]"
  by (simp add: generate_plan_def gubernias_plan_def uezds_plan_def localities_plan_def churches_plan_def
      gubernias_of_eq uezds_of_eq localities_of_eq churches_of_eq children_of_def ex_db_def
      gubernia_link_def uezd_link_def locality_link_def church_link_def format3_def str_int_def digits.simps)

lemma empty_plan:
  "generate_plan empty_db r = [MkDirs r, WriteFile (r @ [''gubernia'', ''index.rst'']) (tree_templ PyNone [])]"
  by (simp add: generate_plan_def gubernias_plan_def gubernias_of_eq empty_db_def)

lemma ex_exec:
  "exec Map.empty [[''srv''] \<mapsto> Dir] (generate_plan ex_db ex_root)
     = (None, nodes (final (generate \<lparr>cur = ex_db, root_dir = Abs ex_root\<rparr> ex_world)))"
  using generate_returned [OF ex_returned] by (simp add: ex_world_def)

lemma ex_nodes:
  "nodes (final (generate \<lparr>cur = ex_db, root_dir = Abs ex_root\<rparr> ex_world))
     = after (generate_plan ex_db ex_root) [[''srv''] \<mapsto> Dir]"
  using ex_exec by (rule exec_after)

lemma ex_root_index:
  "nodes (final (generate \<lparr>cur = ex_db, root_dir = Abs ex_root\<rparr> ex_world))
     [''srv'', ''nsa'', ''cfp'', ''gubernia'', ''index.rst'']
   = Some (File (tree_templ PyNone ''   1/index\<newline>''))"
  unfolding ex_nodes by (simp add: after_def ex_plan ex_root_def)

lemma ex_church_dir:
  "nodes (final (generate \<lparr>cur = ex_db, root_dir = Abs ex_root\<rparr> ex_world))
     [''srv'', ''nsa'', ''cfp'', ''gubernia'', ''1'', ''uezd'', ''10'', ''locality'', ''7'', ''church'', ''3'']
   = Some Dir"
  unfolding ex_nodes by (simp add: after_def ex_plan ex_root_def made_simps)

lemma ex_church_index:
  "nodes (final (generate \<lparr>cur = ex_db, root_dir = Abs ex_root\<rparr> ex_world))
     [''srv'', ''nsa'', ''cfp'', ''gubernia'', ''1'', ''uezd'', ''10'', ''locality'', ''7'', ''church'', ''3'', ''index.rst'']
   = None"
  unfolding ex_nodes by (simp add: after_def ex_plan ex_root_def made_simps)

lemma ex_locality_index:
  "nodes (final (generate \<lparr>cur = ex_db, root_dir = Abs ex_root\<rparr> ex_world))
     [''srv'', ''nsa'', ''cfp'', ''gubernia'', ''1'', ''uezd'', ''10'', ''locality'', ''7'', ''index.rst'']
   = Some (File (tree_templ (PyStr ''Selo'') ''   uezd/3/index\<newline>''))"
  unfolding ex_nodes by (simp add: after_def ex_plan ex_root_def)

lemma ex_nsa_dir:
  "nodes (final (generate \<lparr>cur = ex_db, root_dir = Abs ex_root\<rparr> ex_world)) [''srv'', ''nsa''] = Some Dir"
  unfolding ex_nodes by (simp add: after_def ex_plan ex_root_def made_simps)

section \<open>The claims\<close>

subsection \<open>C1: the link lines of the index documents\<close>

text \<open>
  C1, as the code has it. After a run that returns: the root index (the file
  \<^verbatim>\<open>gubernia/index.rst\<close>, beside the gubernia directories) has one line \<^verbatim>\<open>   <id>/index\<close>
  for each gubernia; the index of a gubernia has one line \<^verbatim>\<open>   uezd/<id>/index\<close> for each
  of its uezds; the index of an uezd and the index of a locality have one line for each
  child, three spaces, a directory segment, then \<^verbatim>\<open>/<id>/index\<close>. Which segment stands
  there at the last two levels is left open.
\<close>

theorem index_link_lines:
  assumes "returned (generate \<lparr>cur = d, root_dir = Abs r\<rparr> w)"
  shows "nodes (final (generate \<lparr>cur = d, root_dir = Abs r\<rparr> w)) (r @ [''gubernia'', ''index.rst''])
           = Some (File (tree_templ PyNone
               (concat (map (\<lambda>(g_id, g_name). ''   '' @ str_int g_id @ ''/index\<newline>'') (gubernias_of d)))))
         \<and> (\<forall>(g_id, g_name) \<in> set (gubernias_of d).
              (\<exists>title. nodes (final (generate \<lparr>cur = d, root_dir = Abs r\<rparr> w))
                          (r @ [''gubernia'', str_int g_id, ''index.rst''])
                 = Some (File (tree_templ title
                     (concat (map (\<lambda>(u_id, u_name). ''   uezd/'' @ str_int u_id @ ''/index\<newline>'')
                                (uezds_of d g_id))))))
              \<and> (\<forall>(u_id, u_name) \<in> set (uezds_of d g_id).
                   (\<exists>title seg. nodes (final (generate \<lparr>cur = d, root_dir = Abs r\<rparr> w))
                                  (r @ [''gubernia'', str_int g_id, ''uezd'', str_int u_id, ''index.rst''])
                      = Some (File (tree_templ title
                          (concat (map (\<lambda>(l_id, l_name). ''   '' @ seg @ ''/'' @ str_int l_id @ ''/index\<newline>'')
                                     (localities_of d u_id))))))
                   \<and> (\<forall>(l_id, l_name) \<in> set (localities_of d u_id).
                        (\<exists>title seg. nodes (final (generate \<lparr>cur = d, root_dir = Abs r\<rparr> w))
                                       (r @ [''gubernia'', str_int g_id, ''uezd'', str_int u_id,
                                             ''locality'', str_int l_id, ''index.rst''])
                           = Some (File (tree_templ title
                               (concat (map (\<lambda>(ch_id, ch_name). ''   '' @ seg @ ''/'' @ str_int ch_id @ ''/index\<newline>'')
                                          (churches_of d l_id)))))))))"
proof -
  let ?N' = "nodes (final (generate \<lparr>cur = d, root_dir = Abs r\<rparr> w))"
  have e: "exec (deny w) (nodes w) (generate_plan d r) = (None, ?N')"
    using assms by (rule generate_returned)
  have "WriteFile (r @ [''gubernia'', ''index.rst'']) (tree_templ PyNone (concat (map gubernia_link (gubernias_of d))))
          \<in> set (generate_plan d r)"
    by (simp add: generate_plan_writes)
  from final_file_in_plan [OF e this] root_index_content
  have root: "?N' (r @ [''gubernia'', ''index.rst''])
                = Some (File (tree_templ PyNone (concat (map gubernia_link (gubernias_of d)))))"
    by blast
  have gub: "\<exists>title. ?N' (r @ [''gubernia'', str_int g_id, ''index.rst''])
                 = Some (File (tree_templ title (concat (map uezd_link (uezds_of d g_id)))))"
    if "(g_id, g_name) \<in> set (gubernias_of d)" for g_id g_name
    using final_file_in_plan [OF e gubernia_index_in_plan [OF that]] gubernia_index_content
    by blast
  have uezd: "\<exists>title. ?N' (r @ [''gubernia'', str_int g_id, ''uezd'', str_int u_id, ''index.rst''])
                 = Some (File (tree_templ title (concat (map locality_link (localities_of d u_id)))))"
    if "(g_id, g_name) \<in> set (gubernias_of d)" "(u_id, u_name) \<in> set (uezds_of d g_id)"
    for g_id g_name u_id u_name
    using final_file_in_plan [OF e uezd_index_in_plan [OF that]] uezd_index_content
    by blast
  have loc: "\<exists>title. ?N' (r @ [''gubernia'', str_int g_id, ''uezd'', str_int u_id,
                               ''locality'', str_int l_id, ''index.rst''])
                 = Some (File (tree_templ title (concat (map church_link (churches_of d l_id)))))"
    if "(g_id, g_name) \<in> set (gubernias_of d)" "(u_id, u_name) \<in> set (uezds_of d g_id)"
       "(l_id, l_name) \<in> set (localities_of d u_id)"
    for g_id g_name u_id u_name l_id l_name
    using final_file_in_plan [OF e locality_index_in_plan [OF that]] locality_index_content
    by blast
  show ?thesis
  proof (intro conjI ballI)
    show "?N' (r @ [''gubernia'', ''index.rst''])
           = Some (File (tree_templ PyNone
               (concat (map (\<lambda>(g_id, g_name). ''   '' @ str_int g_id @ ''/index\<newline>'') (gubernias_of d)))))"
      using root by (simp only: link_texts(1))
  next
    fix g assume g: "g \<in> set (gubernias_of d)"
    show "case g of (g_id, g_name) \<Rightarrow>
              (\<exists>title. ?N' (r @ [''gubernia'', str_int g_id, ''index.rst''])
                 = Some (File (tree_templ title
                     (concat (map (\<lambda>(u_id, u_name). ''   uezd/'' @ str_int u_id @ ''/index\<newline>'')
                                (uezds_of d g_id))))))
              \<and> (\<forall>(u_id, u_name) \<in> set (uezds_of d g_id).
                   (\<exists>title seg. ?N' (r @ [''gubernia'', str_int g_id, ''uezd'', str_int u_id, ''index.rst''])
                      = Some (File (tree_templ title
                          (concat (map (\<lambda>(l_id, l_name). ''   '' @ seg @ ''/'' @ str_int l_id @ ''/index\<newline>'')
                                     (localities_of d u_id))))))
                   \<and> (\<forall>(l_id, l_name) \<in> set (localities_of d u_id).
                        (\<exists>title seg. ?N' (r @ [''gubernia'', str_int g_id, ''uezd'', str_int u_id,
                                             ''locality'', str_int l_id, ''index.rst''])
                           = Some (File (tree_templ title
                               (concat (map (\<lambda>(ch_id, ch_name). ''   '' @ seg @ ''/'' @ str_int ch_id @ ''/index\<newline>'')
                                          (churches_of d l_id))))))))"
    proof (cases g)
      case (Pair g_id g_name)
      with g have g': "(g_id, g_name) \<in> set (gubernias_of d)" by simp
      have 1: "\<exists>title. ?N' (r @ [''gubernia'', str_int g_id, ''index.rst''])
                 = Some (File (tree_templ title
                     (concat (map (\<lambda>(u_id, u_name). ''   uezd/'' @ str_int u_id @ ''/index\<newline>'')
                                (uezds_of d g_id)))))"
        using gub [OF g'] by (simp only: link_texts(2))
      have 2: "(\<exists>title seg. ?N' (r @ [''gubernia'', str_int g_id, ''uezd'', str_int u_id, ''index.rst''])
                      = Some (File (tree_templ title
                          (concat (map (\<lambda>(l_id, l_name). ''   '' @ seg @ ''/'' @ str_int l_id @ ''/index\<newline>'')
                                     (localities_of d u_id))))))"
        if "(u_id, u_name) \<in> set (uezds_of d g_id)" for u_id u_name
        using uezd [OF g' that] unfolding link_texts(3) by blast
      have 3: "(\<exists>title seg. ?N' (r @ [''gubernia'', str_int g_id, ''uezd'', str_int u_id,
                                             ''locality'', str_int l_id, ''index.rst''])
                           = Some (File (tree_templ title
                               (concat (map (\<lambda>(ch_id, ch_name). ''   '' @ seg @ ''/'' @ str_int ch_id @ ''/index\<newline>'')
                                          (churches_of d l_id))))))"
        if "(u_id, u_name) \<in> set (uezds_of d g_id)" "(l_id, l_name) \<in> set (localities_of d u_id)"
        for u_id u_name l_id l_name
        using loc [OF g' that] unfolding link_texts(4) by blast
      from 1 2 3 Pair show ?thesis by (simp only: prod.case) blast
    qed
  qed
qed

theorem index_link_lines_witness:
  "returned (generate \<lparr>cur = ex_db, root_dir = Abs ex_root\<rparr> ex_world)
   \<and> nodes (final (generate \<lparr>cur = ex_db, root_dir = Abs ex_root\<rparr> ex_world))
        [''srv'', ''nsa'', ''cfp'', ''gubernia'', ''index.rst'']
       = Some (File (tree_templ PyNone ''   1/index\<newline>''))
   \<and> (\<exists>title. nodes (final (generate \<lparr>cur = ex_db, root_dir = Abs ex_root\<rparr> ex_world))
        [''srv'', ''nsa'', ''cfp'', ''gubernia'', ''1'', ''index.rst'']
       = Some (File (tree_templ title ''   uezd/10/index\<newline>'')))
   \<and> (\<exists>title seg. nodes (final (generate \<lparr>cur = ex_db, root_dir = Abs ex_root\<rparr> ex_world))
        [''srv'', ''nsa'', ''cfp'', ''gubernia'', ''1'', ''uezd'', ''10'', ''index.rst'']
       = Some (File (tree_templ title (''   '' @ seg @ ''/7/index\<newline>''))))
   \<and> (\<exists>title seg. nodes (final (generate \<lparr>cur = ex_db, root_dir = Abs ex_root\<rparr> ex_world))
        [''srv'', ''nsa'', ''cfp'', ''gubernia'', ''1'', ''uezd'', ''10'', ''locality'', ''7'', ''index.rst'']
       = Some (File (tree_templ title (''   '' @ seg @ ''/3/index\<newline>''))))"
  using index_link_lines [OF ex_returned] ex_returned
  by (simp add: gubernias_of_eq uezds_of_eq localities_of_eq churches_of_eq children_of_def
      ex_db_def ex_root_def str_int_def digits.simps)

text \<open>
  C1, as stated, fails at the root level: with the single gubernia 1, the one link line
  of the root index is \<^verbatim>\<open>   1/index\<close>, with no kind segment; the root index lies in
  the directory \<^verbatim>\<open>gubernia\<close> itself.
\<close>

theorem index_link_lines_counterexample:
  "nodes (final (generate \<lparr>cur = ex_db, root_dir = Abs ex_root\<rparr> ex_world))
     [''srv'', ''nsa'', ''cfp'', ''gubernia'', ''index.rst'']
     = Some (File (tree_templ PyNone ''   1/index\<newline>''))
   \<and> nodes (final (generate \<lparr>cur = ex_db, root_dir = Abs ex_root\<rparr> ex_world))
     [''srv'', ''nsa'', ''cfp'', ''gubernia'', ''index.rst'']
     \<noteq> Some (File (tree_templ PyNone ''   gubernia/1/index\<newline>''))"
  by (simp add: ex_root_index tree_templ_def)

subsection \<open>C2: the directory of a church\<close>

text \<open>
  C2. The run on the example data makes the directory of church 3 and writes no
  \<^verbatim>\<open>index.rst\<close> in it, although the index of its locality links to a document of the
  church.
\<close>

theorem church_directory_has_no_index:
  "returned (generate \<lparr>cur = ex_db, root_dir = Abs ex_root\<rparr> ex_world)
   \<and> nodes (final (generate \<lparr>cur = ex_db, root_dir = Abs ex_root\<rparr> ex_world))
     [''srv'', ''nsa'', ''cfp'', ''gubernia'', ''1'', ''uezd'', ''10'', ''locality'', ''7'', ''church'', ''3'']
     = Some Dir
   \<and> nodes (final (generate \<lparr>cur = ex_db, root_dir = Abs ex_root\<rparr> ex_world))
     [''srv'', ''nsa'', ''cfp'', ''gubernia'', ''1'', ''uezd'', ''10'', ''locality'', ''7'', ''church'', ''3'',
      ''index.rst'']
     = None
   \<and> nodes (final (generate \<lparr>cur = ex_db, root_dir = Abs ex_root\<rparr> ex_world))
     [''srv'', ''nsa'', ''cfp'', ''gubernia'', ''1'', ''uezd'', ''10'', ''locality'', ''7'', ''index.rst'']
     = Some (File (tree_templ (PyStr ''Selo'') ''   uezd/3/index\<newline>''))"
  by (simp add: ex_returned ex_church_dir ex_church_index ex_locality_index)

subsection \<open>C3: the title of the root index\<close>

text \<open>
  C3. The root index of the example run, byte for byte: where the title stands, the
  document has the word \<^verbatim>\<open>None\<close>, which is what \<^verbatim>\<open>str.format\<close> writes for
  \<^verbatim>\<open>title=None\<close>.
\<close>

theorem root_index_title_is_the_word_None:
  "nodes (final (generate \<lparr>cur = ex_db, root_dir = Abs ex_root\<rparr> ex_world))
     [''srv'', ''nsa'', ''cfp'', ''gubernia'', ''index.rst'']
     = Some (File ''\<newline>.. Tree RST template\<newline>.. Autogenerated by cfp-sphinx.py\<newline>\<newline>None\<newline>\<newline>.. toctree::\<newline>   :maxdepth: 2\<newline>\<newline>   1/index\<newline>\<newline>'')"
  by (simp add: ex_root_index tree_templ_def)

subsection \<open>C4: one gubernia with one uezd\<close>



subsection \<open>C5: a second run\<close>

text \<open>
  C5. A second run on the same rows and with the same output root, started on the tree
  the first run left behind, succeeds and leaves every path as it found it: the same
  directories, and every index document with the same bytes.
\<close>

theorem generate_twice:
  assumes "returned (generate \<lparr>cur = d, root_dir = Abs r\<rparr> w)"
    and "nodes w2 = nodes (final (generate \<lparr>cur = d, root_dir = Abs r\<rparr> w))"
    and "deny w2 = deny w"
  shows "returned (generate \<lparr>cur = d, root_dir = Abs r\<rparr> w2)
         \<and> nodes (final (generate \<lparr>cur = d, root_dir = Abs r\<rparr> w2))
             = nodes (final (generate \<lparr>cur = d, root_dir = Abs r\<rparr> w))"
proof -
  let ?N1 = "nodes (final (generate \<lparr>cur = d, root_dir = Abs r\<rparr> w))"
  from generate_returned [OF assms(1)]
  have "exec (deny w) ?N1 (generate_plan d r) = (None, ?N1)"
    by (rule exec_idempotent)
  with assms(2,3) have "exec (deny w2) (nodes w2) (generate_plan d r) = (None, ?N1)"
    by simp
  then show ?thesis by (rule generate_exec_ok)
qed

theorem generate_twice_witness:
  "returned (generate \<lparr>cur = ex_db, root_dir = Abs ex_root\<rparr> ex_world)
   \<and> returned (generate \<lparr>cur = ex_db, root_dir = Abs ex_root\<rparr>
                 (final (generate \<lparr>cur = ex_db, root_dir = Abs ex_root\<rparr> ex_world)))
   \<and> nodes (final (generate \<lparr>cur = ex_db, root_dir = Abs ex_root\<rparr>
                      (final (generate \<lparr>cur = ex_db, root_dir = Abs ex_root\<rparr> ex_world))))
       = nodes (final (generate \<lparr>cur = ex_db, root_dir = Abs ex_root\<rparr> ex_world))"
proof -
  have "deny (final (generate \<lparr>cur = ex_db, root_dir = Abs ex_root\<rparr> ex_world)) = deny ex_world"
    using generate_exec [of ex_world ex_db ex_root] by blast
  from generate_twice [OF ex_returned refl this] ex_returned show ?thesis
    by simp
qed

subsection \<open>C6: one directory for each row\<close>

text \<open>
  C6, as the code has it. Take a run that returns, on tables whose ids are unique. Under
  every parent the run visits, the number of child directories the run has created is
  the number of rows of the parent's query whose directory was not there before: all
  the rows on a first run, none on a second. The children are \<^verbatim>\<open>gubernia/<id>\<close> under the
  root, \<^verbatim>\<open>uezd/<id>\<close> under a gubernia, \<^verbatim>\<open>locality/<id>\<close> under an uezd and
  \<^verbatim>\<open>church/<id>\<close> under a locality.
\<close>

theorem child_directories_match_rows:
  assumes "returned (generate \<lparr>cur = d, root_dir = Abs r\<rparr> w)"
    and "distinct (map fst (cfp_gubernia d))" and "distinct (map fst (cfp_uezd d))"
    and "distinct (map fst (cfp_locality d))" and "distinct (map fst (cfp_church d))"
  shows "card (child_dirs (created (nodes w) (nodes (final (generate \<lparr>cur = d, root_dir = Abs r\<rparr> w))))
                 r ''gubernia'')
           = length (missing_rows (nodes w) r ''gubernia'' (gubernias_of d))
         \<and> (\<forall>(g_id, g_name) \<in> set (gubernias_of d).
              card (child_dirs (created (nodes w) (nodes (final (generate \<lparr>cur = d, root_dir = Abs r\<rparr> w))))
                      (r @ [''gubernia'', str_int g_id]) ''uezd'')
                = length (missing_rows (nodes w) (r @ [''gubernia'', str_int g_id]) ''uezd'' (uezds_of d g_id))
              \<and> (\<forall>(u_id, u_name) \<in> set (uezds_of d g_id).
                   card (child_dirs (created (nodes w) (nodes (final (generate \<lparr>cur = d, root_dir = Abs r\<rparr> w))))
                           (r @ [''gubernia'', str_int g_id, ''uezd'', str_int u_id]) ''locality'')
                     = length (missing_rows (nodes w) (r @ [''gubernia'', str_int g_id, ''uezd'', str_int u_id])
                                 ''locality'' (localities_of d u_id))
                   \<and> (\<forall>(l_id, l_name) \<in> set (localities_of d u_id).
                        card (child_dirs (created (nodes w) (nodes (final (generate \<lparr>cur = d, root_dir = Abs r\<rparr> w))))
                                (r @ [''gubernia'', str_int g_id, ''uezd'', str_int u_id, ''locality'', str_int l_id])
                                ''church'')
                          = length (missing_rows (nodes w)
                                      (r @ [''gubernia'', str_int g_id, ''uezd'', str_int u_id, ''locality'', str_int l_id])
                                      ''church'' (churches_of d l_id)))))"
proof -
  let ?N' = "nodes (final (generate \<lparr>cur = d, root_dir = Abs r\<rparr> w))"
  have e: "exec (deny w) (nodes w) (generate_plan d r) = (None, ?N')"
    using assms(1) by (rule generate_returned)
  have dg: "distinct (map fst (gubernias_of d))"
    using assms(2) by (simp add: gubernias_of_eq)
  have du: "distinct (map fst (uezds_of d g_id))" for g_id
    using assms(3) by (simp add: uezds_of_eq children_of_distinct)
  have dl: "distinct (map fst (localities_of d u_id))" for u_id
    using assms(4) by (simp add: localities_of_eq children_of_distinct)
  have dc: "distinct (map fst (churches_of d l_id))" for l_id
    using assms(5) by (simp add: churches_of_eq children_of_distinct)
  have 0: "card (child_dirs (created (nodes w) ?N') r ''gubernia'')
             = length (missing_rows (nodes w) r ''gubernia'' (gubernias_of d))"
    using gubernia_dirs_after [OF e] dg by (rule card_created_children)
  have 1: "card (child_dirs (created (nodes w) ?N') (r @ [''gubernia'', str_int g_id]) ''uezd'')
             = length (missing_rows (nodes w) (r @ [''gubernia'', str_int g_id]) ''uezd'' (uezds_of d g_id))"
    if "(g_id, g_name) \<in> set (gubernias_of d)" for g_id g_name
  proof -
    have "child_dirs (dirs ?N') (r @ [''gubernia'', str_int g_id]) ''uezd''
             = child_dirs (dirs (nodes w)) (r @ [''gubernia'', str_int g_id]) ''uezd''
               \<union> row_dirs (r @ [''gubernia'', str_int g_id]) ''uezd'' (uezds_of d g_id)"
      unfolding child_dirs_after [OF e] row_dirs_image by (simp only: made_uezds [OF that])
    then show ?thesis using du by (rule card_created_children)
  qed
  have 2: "card (child_dirs (created (nodes w) ?N')
                   (r @ [''gubernia'', str_int g_id, ''uezd'', str_int u_id]) ''locality'')
             = length (missing_rows (nodes w) (r @ [''gubernia'', str_int g_id, ''uezd'', str_int u_id])
                         ''locality'' (localities_of d u_id))"
    if "(g_id, g_name) \<in> set (gubernias_of d)" "(u_id, u_name) \<in> set (uezds_of d g_id)"
    for g_id g_name u_id u_name
  proof -
    have "child_dirs (dirs ?N') (r @ [''gubernia'', str_int g_id, ''uezd'', str_int u_id]) ''locality''
             = child_dirs (dirs (nodes w)) (r @ [''gubernia'', str_int g_id, ''uezd'', str_int u_id]) ''locality''
               \<union> row_dirs (r @ [''gubernia'', str_int g_id, ''uezd'', str_int u_id]) ''locality''
                   (localities_of d u_id)"
      unfolding child_dirs_after [OF e] row_dirs_image by (simp only: made_localities [OF that])
    then show ?thesis using dl by (rule card_created_children)
  qed
  have 3: "card (child_dirs (created (nodes w) ?N')
                   (r @ [''gubernia'', str_int g_id, ''uezd'', str_int u_id, ''locality'', str_int l_id]) ''church'')
             = length (missing_rows (nodes w)
                         (r @ [''gubernia'', str_int g_id, ''uezd'', str_int u_id, ''locality'', str_int l_id])
                         ''church'' (churches_of d l_id))"
    if "(g_id, g_name) \<in> set (gubernias_of d)" "(u_id, u_name) \<in> set (uezds_of d g_id)"
       "(l_id, l_name) \<in> set (localities_of d u_id)"
    for g_id g_name u_id u_name l_id l_name
  proof -
    have "child_dirs (dirs ?N')
               (r @ [''gubernia'', str_int g_id, ''uezd'', str_int u_id, ''locality'', str_int l_id]) ''church''
             = child_dirs (dirs (nodes w))
                 (r @ [''gubernia'', str_int g_id, ''uezd'', str_int u_id, ''locality'', str_int l_id]) ''church''
               \<union> row_dirs (r @ [''gubernia'', str_int g_id, ''uezd'', str_int u_id, ''locality'', str_int l_id])
                   ''church'' (churches_of d l_id)"
      unfolding child_dirs_after [OF e] row_dirs_image by (simp only: made_churches [OF that])
    then show ?thesis using dc by (rule card_created_children)
  qed
  show ?thesis
    by (intro conjI ballI case_prodI2; (hypsubst)?; (rule 0 | (rule 1 2 3; assumption)))
qed

theorem child_directories_match_rows_witness:
  "returned (generate \<lparr>cur = two_db, root_dir = Abs ex_root\<rparr> ex_world)
   \<and> length (gubernias_of two_db) = 2
   \<and> card (child_dirs (created (nodes ex_world)
                         (nodes (final (generate \<lparr>cur = two_db, root_dir = Abs ex_root\<rparr> ex_world))))
             ex_root ''gubernia'') = 2
   \<and> length (uezds_of two_db 1) = 2
   \<and> card (child_dirs (created (nodes ex_world)
                         (nodes (final (generate \<lparr>cur = two_db, root_dir = Abs ex_root\<rparr> ex_world))))
             (ex_root @ [''gubernia'', ''1'']) ''uezd'') = 2
   \<and> length (uezds_of two_db 2) = 0
   \<and> card (child_dirs (created (nodes ex_world)
                         (nodes (final (generate \<lparr>cur = two_db, root_dir = Abs ex_root\<rparr> ex_world))))
             (ex_root @ [''gubernia'', ''2'']) ''uezd'') = 0"
proof -
  have d: "distinct (map fst (cfp_gubernia two_db))" "distinct (map fst (cfp_uezd two_db))"
    "distinct (map fst (cfp_locality two_db))" "distinct (map fst (cfp_church two_db))"
    by (simp_all add: two_db_def)
  have rows: "gubernias_of two_db = [(1, ''Oblast''), (2, ''Krai'')]"
    "uezds_of two_db 1 = [(10, ''Rayon''), (11, ''Okrug'')]" "uezds_of two_db 2 = []"
    "localities_of two_db 10 = []" "localities_of two_db 11 = []"
    by (simp_all add: gubernias_of_eq uezds_of_eq localities_of_eq children_of_def two_db_def)
  have ids: "str_int 1 = ''1''" "str_int 2 = ''2''" "str_int 10 = ''10''" "str_int 11 = ''11''"
    by (simp_all add: str_int_def digits.simps)
  have missing: "missing_rows (nodes ex_world) ex_root ''gubernia'' [(1, ''Oblast''), (2, ''Krai'')]
                   = [(1, ''Oblast''), (2, ''Krai'')]"
    "missing_rows (nodes ex_world) (ex_root @ [''gubernia'', ''1'']) ''uezd'' [(10, ''Rayon''), (11, ''Okrug'')]
       = [(10, ''Rayon''), (11, ''Okrug'')]"
    by (simp_all add: missing_rows_def ex_world_def ex_root_def)
  have none: "missing_rows N parent kind [] = []" for N parent kind
    by (simp add: missing_rows_def)
  from child_directories_match_rows [OF two_returned d] two_returned show ?thesis
    by (simp add: rows ids missing none)
qed

text \<open>
  C6, as stated, fails when a query returns two rows with the same id: both rows name
  the directory \<^verbatim>\<open>gubernia/1\<close>, so the run creates one child directory under the root for
  two rows.
\<close>

theorem child_directories_match_rows_counterexample:
  "returned (generate \<lparr>cur = dup_db, root_dir = Abs ex_root\<rparr> ex_world)
   \<and> length (gubernias_of dup_db) = 2
   \<and> child_dirs (created (nodes ex_world)
                   (nodes (final (generate \<lparr>cur = dup_db, root_dir = Abs ex_root\<rparr> ex_world))))
        ex_root ''gubernia''
       = {[''srv'', ''nsa'', ''cfp'', ''gubernia'', ''1'']}
   \<and> card (child_dirs (created (nodes ex_world)
                         (nodes (final (generate \<lparr>cur = dup_db, root_dir = Abs ex_root\<rparr> ex_world))))
             ex_root ''gubernia'') = 1"
proof -
  have rows: "gubernias_of dup_db = [(1, ''Oblast''), (1, ''Krai'')]"
    by (simp add: gubernias_of_eq dup_db_def)
  have ids: "str_int 1 = ''1''"
    by (simp add: str_int_def digits.simps)
  have "child_dirs (created (nodes ex_world)
                   (nodes (final (generate \<lparr>cur = dup_db, root_dir = Abs ex_root\<rparr> ex_world))))
        ex_root ''gubernia''
       = row_dirs ex_root ''gubernia'' (missing_rows (nodes ex_world) ex_root ''gubernia'' (gubernias_of dup_db))"
    using gubernia_dirs_after [OF generate_returned [OF dup_returned]] by (rule created_children)
  also have "\<dots> = {[''srv'', ''nsa'', ''cfp'', ''gubernia'', ''1'']}"
    by (simp add: rows row_dirs_def missing_rows_def ids ex_world_def ex_root_def)
  finally show ?thesis
    using dup_returned by (simp add: rows)
qed

subsection \<open>C7: a failed connection\<close>

text \<open>
  C7. When \<^verbatim>\<open>mariadb.connect\<close> fails, the process prints the cause and exits with status
  1; the file system is as it was (no directory has been made, no file written), and no
  statement has been sent to the data store.
\<close>

theorem connect_failure_exits_before_any_write:
  "fst (run_script (Inl e) w) = 1
   \<and> nodes (snd (run_script (Inl e) w)) = nodes w
   \<and> stdout (snd (run_script (Inl e) w))
       = stdout w @ [''Error connecting to MariaDB Platform: '' @ e @ ''\<newline>'']
   \<and> stderr (snd (run_script (Inl e) w)) = stderr w
   \<and> issued (snd (run_script (Inl e) w)) = issued w"
  by (simp add: run_script_def main_def init_def py_print_def)

subsection \<open>C8: a failed file-system operation\<close>

text \<open>
  C8. Let the run come to a file-system operation \<open>x\<close>, everything before it having
  succeeded, and let \<open>x\<close> fail with the error \<open>e\<close>. Then the process ends with status 1,
  the file system is left as the failing operation left it (no later operation is carried
  out), and a diagnostic has been printed: the line \<^verbatim>\<open>Could not create directory: \<close>
  followed by the text of \<open>e\<close> on the standard output when a directory could not be made,
  the interpreter's traceback of \<open>e\<close>, which nobody caught, on the standard error stream
  when a file could not be written.
\<close>

theorem filesystem_failure_exits_1:
  assumes "generate_plan d (cwd w @ [''nsa'', ''cfp'']) = before @ x # rest"
    and "exec (deny w) (nodes w) before = (None, N1)"
    and "os_apply (deny w) N1 x = (Some e, N2)"
  shows "fst (run_script (Inr d) w) = 1
         \<and> nodes (snd (run_script (Inr d) w)) = N2
         \<and> (case x of
               MkDirs p \<Rightarrow>
                 last (stdout (snd (run_script (Inr d) w)))
                   = ''Could not create directory: '' @ str_oserror e @ ''\<newline>''
                 \<and> stderr (snd (run_script (Inr d) w)) = stderr w
             | WriteFile p rst \<Rightarrow>
                 stderr (snd (run_script (Inr d) w)) = stderr w @ [Traceback e])"
proof -
  let ?r = "cwd w @ [''nsa'', ''cfp'']"
  let ?w0 = "w\<lparr>current_gub := []\<rparr>"
  let ?g = "generate \<lparr>cur = d, root_dir = Abs ?r\<rparr> ?w0"
  have "exec (deny ?w0) (nodes ?w0) (generate_plan d ?r) = (Some (x, e), N2)"
    using assms by (simp add: exec_append)
  with performsD [OF performs_generate [of d ?r], of ?w0]
  have "\<exists>w'. ?g = Halt (stop_of x e) w' \<and> nodes w' = N2 \<and> deny w' = deny ?w0 \<and> stderr w' = stderr ?w0
              \<and> reported x e w'"
    by (simp only: agrees.simps)
  then obtain w' where g: "?g = Halt (stop_of x e) w'" and w': "nodes w' = N2" "stderr w' = stderr ?w0" "reported x e w'"
    by blast
  show ?thesis
  proof (cases x)
    case (MkDirs p)
    with g w' show ?thesis
      by (simp add: run_script_def main_generate)
  next
    case (WriteFile p rst)
    with g w' show ?thesis
      by (simp add: run_script_def main_generate)
  qed
qed

text \<open>
  Three runs that fail. With no gubernia the directory \<^verbatim>\<open>gubernia\<close> is never made and
  the root index cannot be opened. With a regular file \<^verbatim>\<open>/srv/nsa\<close> in the way the output
  root cannot be made. On a full medium the root index of an earlier run is opened,
  which empties it, and the new contents do not get through.
\<close>

theorem filesystem_failure_exits_1_witness:
  "fst (run_script (Inr empty_db) ex_world) = 1
   \<and> nodes (snd (run_script (Inr empty_db) ex_world))
       = [[''srv''] \<mapsto> Dir, [''srv'', ''nsa''] \<mapsto> Dir, [''srv'', ''nsa'', ''cfp''] \<mapsto> Dir]
   \<and> map last_line (stderr (snd (run_script (Inr empty_db) ex_world)))
       = [''FileNotFoundError: [Errno 2] No such file or directory: '/srv/nsa/cfp/gubernia/index.rst'\<newline>'']
   \<and> fst (run_script (Inr ex_db) blocked_world) = 1
   \<and> nodes (snd (run_script (Inr ex_db) blocked_world)) = nodes blocked_world
   \<and> last (stdout (snd (run_script (Inr ex_db) blocked_world)))
       = ''Could not create directory: [Errno 20] Not a directory: '/srv/nsa/cfp'\<newline>''
   \<and> stderr (snd (run_script (Inr ex_db) blocked_world)) = []
   \<and> fst (run_script (Inr empty_db) full_world) = 1
   \<and> nodes (snd (run_script (Inr empty_db) full_world))
       = (nodes full_world)([''srv'', ''nsa'', ''cfp'', ''gubernia'', ''index.rst''] \<mapsto> File [])
   \<and> map last_line (stderr (snd (run_script (Inr empty_db) full_world)))
       = [''OSError: [Errno 28] No space left on device\<newline>'']"
proof -
  let ?N1 = "[[''srv''] \<mapsto> Dir, [''srv'', ''nsa''] \<mapsto> Dir, [''srv'', ''nsa'', ''cfp''] \<mapsto> Dir]"
  let ?p = "[''srv'', ''nsa'', ''cfp'', ''gubernia'', ''index.rst'']"
  have a1: "generate_plan empty_db (cwd ex_world @ [''nsa'', ''cfp''])
             = [MkDirs [''srv'', ''nsa'', ''cfp'']] @ WriteFile ?p (tree_templ PyNone []) # []"
    by (simp add: empty_plan ex_world_def)
  have a2: "exec (deny ex_world) (nodes ex_world) [MkDirs [''srv'', ''nsa'', ''cfp'']] = (None, ?N1)"
    by (simp add: ex_world_def os_makedirs_def is_dir_def)
  have a3: "os_apply (deny ex_world) ?N1 (WriteFile ?p (tree_templ PyNone []))
             = (Some (OSError ENOENT (Some ''/srv/nsa/cfp/gubernia/index.rst'')), ?N1)"
    by (simp add: os_write_file_def is_dir_def path_text_def)
  have b1: "generate_plan ex_db (cwd blocked_world @ [''nsa'', ''cfp''])
             = [] @ MkDirs [''srv'', ''nsa'', ''cfp''] # gubernias_plan ex_db [''srv'', ''nsa'', ''cfp'']"
    by (simp add: generate_plan_def blocked_world_def)
  have b2: "exec (deny blocked_world) (nodes blocked_world) [] = (None, nodes blocked_world)"
    by simp
  have b3: "os_apply (deny blocked_world) (nodes blocked_world) (MkDirs [''srv'', ''nsa'', ''cfp''])
             = (Some (OSError ENOTDIR (Some ''/srv/nsa/cfp'')), nodes blocked_world)"
    by (simp add: blocked_world_def os_makedirs_def is_dir_def path_text_def)
  have c1: "generate_plan empty_db (cwd full_world @ [''nsa'', ''cfp''])
             = [MkDirs [''srv'', ''nsa'', ''cfp'']] @ WriteFile ?p (tree_templ PyNone []) # []"
    by (simp add: empty_plan full_world_def)
  have c2: "exec (deny full_world) (nodes full_world) [MkDirs [''srv'', ''nsa'', ''cfp'']]
             = (None, nodes full_world)"
    by (simp add: full_world_def os_makedirs_def is_dir_def)
  have c3: "os_apply (deny full_world) (nodes full_world) (WriteFile ?p (tree_templ PyNone []))
             = (Some (OSError (Fault ENOSPC) None), (nodes full_world)(?p \<mapsto> File []))"
    by (simp add: full_world_def os_write_file_def is_dir_def)
  have r1: "py_repr ''/srv/nsa/cfp/gubernia/index.rst'' = CHR 0x27 # ''/srv/nsa/cfp/gubernia/index.rst'' @ [CHR 0x27]"
    by (simp add: py_repr_def repr_char_def Let_def)
  have r2: "py_repr ''/srv/nsa/cfp'' = CHR 0x27 # ''/srv/nsa/cfp'' @ [CHR 0x27]"
    by (simp add: py_repr_def repr_char_def Let_def)
  have n: "str_int 2 = ''2''" "str_int 20 = ''20''" "str_int 28 = ''28''"
    by (simp_all add: str_int_def digits.simps)
  from filesystem_failure_exits_1 [OF a1 a2 a3] filesystem_failure_exits_1 [OF b1 b2 b3]
    filesystem_failure_exits_1 [OF c1 c2 c3]
  show ?thesis
    by (simp add: ex_world_def blocked_world_def full_world_def r1 r2 n)
qed

subsection \<open>C9: what a run touches\<close>

text \<open>
  C9, as the code has it. Every statement a run sends to the data store is one of the
  four \<^verbatim>\<open>SELECT\<close> texts, whether the run returns or stops. On the file system a path
  that differs after the run is the output root or lies below it, or is an ancestor of
  the output root that was missing and is now a directory (\<^verbatim>\<open>os.makedirs\<close> makes the
  parents of the output root too).
\<close>

theorem run_reads_only:
  "(\<exists>stmts. issued (final (generate \<lparr>cur = d, root_dir = Abs r\<rparr> w)) = issued w @ stmts
       \<and> (\<forall>(sql, params) \<in> set stmts.
             sql \<in> {sql_gubernia, sql_uezd, sql_locality, sql_church} \<and> take 7 sql = ''SELECT ''))
   \<and> (nodes (final (generate \<lparr>cur = d, root_dir = Abs r\<rparr> w)) p \<noteq> nodes w p \<longrightarrow>
         prefix r p
         \<or> (strict_prefix p r \<and> nodes w p = None
            \<and> nodes (final (generate \<lparr>cur = d, root_dir = Abs r\<rparr> w)) p = Some Dir))"
proof (intro conjI impI)
  from reads_only_generate [of "\<lparr>cur = d, root_dir = Abs r\<rparr>"]
  obtain stmts where s: "issued (final (generate \<lparr>cur = d, root_dir = Abs r\<rparr> w)) = issued w @ stmts"
    "selects stmts"
    unfolding reads_only_def by blast
  from s(2) have "\<forall>(sql, params) \<in> set stmts.
             sql \<in> {sql_gubernia, sql_uezd, sql_locality, sql_church} \<and> take 7 sql = ''SELECT ''"
    unfolding selects_def using select_texts by fastforce
  with s(1) show "\<exists>stmts. issued (final (generate \<lparr>cur = d, root_dir = Abs r\<rparr> w)) = issued w @ stmts
       \<and> (\<forall>(sql, params) \<in> set stmts.
             sql \<in> {sql_gubernia, sql_uezd, sql_locality, sql_church} \<and> take 7 sql = ''SELECT '')"
    by blast
next
  assume "nodes (final (generate \<lparr>cur = d, root_dir = Abs r\<rparr> w)) p \<noteq> nodes w p"
  then show "prefix r p
         \<or> (strict_prefix p r \<and> nodes w p = None
            \<and> nodes (final (generate \<lparr>cur = d, root_dir = Abs r\<rparr> w)) p = Some Dir)"
    by (rule generate_changes)
qed

theorem run_reads_only_witness:
  "nodes (final (generate \<lparr>cur = ex_db, root_dir = Abs ex_root\<rparr> ex_world)) [''srv'', ''nsa'']
     \<noteq> nodes ex_world [''srv'', ''nsa'']
   \<and> (prefix ex_root [''srv'', ''nsa'']
      \<or> strict_prefix [''srv'', ''nsa''] ex_root \<and> nodes ex_world [''srv'', ''nsa''] = None
        \<and> nodes (final (generate \<lparr>cur = ex_db, root_dir = Abs ex_root\<rparr> ex_world)) [''srv'', ''nsa''] = Some Dir)
   \<and> (\<exists>stmts. issued (final (generate \<lparr>cur = ex_db, root_dir = Abs ex_root\<rparr> ex_world))
                  = issued ex_world @ stmts
         \<and> (\<forall>(sql, params) \<in> set stmts.
               sql \<in> {sql_gubernia, sql_uezd, sql_locality, sql_church} \<and> take 7 sql = ''SELECT ''))"
proof -
  have 1: "nodes (final (generate \<lparr>cur = ex_db, root_dir = Abs ex_root\<rparr> ex_world)) [''srv'', ''nsa'']
     \<noteq> nodes ex_world [''srv'', ''nsa'']"
    by (simp add: ex_nsa_dir) (simp add: ex_world_def)
  from run_reads_only [of ex_db ex_root ex_world "[''srv'', ''nsa'']"] 1 show ?thesis
    by blast
qed

text \<open>
  C9, as stated, fails: the run in \<^verbatim>\<open>/srv\<close> makes the directory \<^verbatim>\<open>/srv/nsa\<close>, which is
  not under the output root \<^verbatim>\<open>/srv/nsa/cfp\<close>.
\<close>

theorem run_reads_only_counterexample:
  "nodes ex_world [''srv'', ''nsa''] = None
   \<and> nodes (final (generate \<lparr>cur = ex_db, root_dir = Abs ex_root\<rparr> ex_world)) [''srv'', ''nsa''] = Some Dir
   \<and> \<not> prefix ex_root [''srv'', ''nsa'']"
  by (simp add: ex_nsa_dir) (simp add: ex_world_def ex_root_def)

subsection \<open>C10: two runs on the same rows\<close>

text \<open>
  C10. Two runs with the same output root, on data stores whose four queries return the
  same rows for every parent id. Started on the same file system with the same faults,
  they end alike (both return or both stop) and leave the same file system. Started on
  any two file systems and both returning, they leave at every path either the same
  thing (the same directory made, the same contents written), or each what it found
  there.
\<close>

theorem generate_deterministic:
  assumes "gubernias_of d1 = gubernias_of d2" and "\<forall>g_id. uezds_of d1 g_id = uezds_of d2 g_id"
    and "\<forall>u_id. localities_of d1 u_id = localities_of d2 u_id"
    and "\<forall>l_id. churches_of d1 l_id = churches_of d2 l_id"
  shows "(nodes w1 = nodes w2 \<and> deny w1 = deny w2 \<longrightarrow>
            returned (generate \<lparr>cur = d1, root_dir = Abs r\<rparr> w1)
              = returned (generate \<lparr>cur = d2, root_dir = Abs r\<rparr> w2)
            \<and> nodes (final (generate \<lparr>cur = d1, root_dir = Abs r\<rparr> w1))
              = nodes (final (generate \<lparr>cur = d2, root_dir = Abs r\<rparr> w2)))
         \<and> (returned (generate \<lparr>cur = d1, root_dir = Abs r\<rparr> w1)
              \<and> returned (generate \<lparr>cur = d2, root_dir = Abs r\<rparr> w2) \<longrightarrow>
            nodes (final (generate \<lparr>cur = d1, root_dir = Abs r\<rparr> w1)) p
              = nodes (final (generate \<lparr>cur = d2, root_dir = Abs r\<rparr> w2)) p
            \<or> (nodes (final (generate \<lparr>cur = d1, root_dir = Abs r\<rparr> w1)) p = nodes w1 p
                \<and> nodes (final (generate \<lparr>cur = d2, root_dir = Abs r\<rparr> w2)) p = nodes w2 p))"
proof (intro conjI impI)
  have plan: "generate_plan d1 r = generate_plan d2 r"
    using assms by (rule plans_agree)
  {
    assume "nodes w1 = nodes w2 \<and> deny w1 = deny w2"
    then have same: "exec (deny w1) (nodes w1) (generate_plan d1 r) = exec (deny w2) (nodes w2) (generate_plan d2 r)"
      by (simp add: plan)
    from generate_exec [of w1 d1 r] generate_exec [of w2 d2 r] same
    show "returned (generate \<lparr>cur = d1, root_dir = Abs r\<rparr> w1)
              = returned (generate \<lparr>cur = d2, root_dir = Abs r\<rparr> w2)"
      by auto
    from generate_exec [of w1 d1 r] generate_exec [of w2 d2 r] same
    show "nodes (final (generate \<lparr>cur = d1, root_dir = Abs r\<rparr> w1))
              = nodes (final (generate \<lparr>cur = d2, root_dir = Abs r\<rparr> w2))"
      by auto
  }
  {
    assume "returned (generate \<lparr>cur = d1, root_dir = Abs r\<rparr> w1)
              \<and> returned (generate \<lparr>cur = d2, root_dir = Abs r\<rparr> w2)"
    then have 1: "exec (deny w1) (nodes w1) (generate_plan d2 r)
                    = (None, nodes (final (generate \<lparr>cur = d1, root_dir = Abs r\<rparr> w1)))"
      and 2: "exec (deny w2) (nodes w2) (generate_plan d2 r)
                    = (None, nodes (final (generate \<lparr>cur = d2, root_dir = Abs r\<rparr> w2)))"
      using generate_returned [of d1 r w1] generate_returned [of d2 r w2] by (simp_all add: plan)
    from exec_same_ops [OF 1 2]
    show "nodes (final (generate \<lparr>cur = d1, root_dir = Abs r\<rparr> w1)) p
              = nodes (final (generate \<lparr>cur = d2, root_dir = Abs r\<rparr> w2)) p
            \<or> (nodes (final (generate \<lparr>cur = d1, root_dir = Abs r\<rparr> w1)) p = nodes w1 p
                \<and> nodes (final (generate \<lparr>cur = d2, root_dir = Abs r\<rparr> w2)) p = nodes w2 p)" .
  }
qed

theorem generate_deterministic_witness:
  "returned (generate \<lparr>cur = ex_db, root_dir = Abs ex_root\<rparr> ex_world)
   \<and> returned (generate \<lparr>cur = ex_db, root_dir = Abs ex_root\<rparr> ex_world2)
   \<and> (nodes (final (generate \<lparr>cur = ex_db, root_dir = Abs ex_root\<rparr> ex_world))
          [''srv'', ''nsa'', ''cfp'', ''gubernia'', ''1'']
        = nodes (final (generate \<lparr>cur = ex_db, root_dir = Abs ex_root\<rparr> ex_world2))
          [''srv'', ''nsa'', ''cfp'', ''gubernia'', ''1'']
       \<or> nodes (final (generate \<lparr>cur = ex_db, root_dir = Abs ex_root\<rparr> ex_world))
            [''srv'', ''nsa'', ''cfp'', ''gubernia'', ''1'']
          = nodes ex_world [''srv'', ''nsa'', ''cfp'', ''gubernia'', ''1'']
          \<and> nodes (final (generate \<lparr>cur = ex_db, root_dir = Abs ex_root\<rparr> ex_world2))
            [''srv'', ''nsa'', ''cfp'', ''gubernia'', ''1'']
          = nodes ex_world2 [''srv'', ''nsa'', ''cfp'', ''gubernia'', ''1''])"
  using generate_deterministic [of ex_db ex_db ex_world ex_world2 ex_root "[''srv'', ''nsa'', ''cfp'', ''gubernia'', ''1'']"]
    ex_returned ex_returned2
  by simp

end
